theory Spec2Isabelle
  imports Complex_Main
begin

section \<open>Python values and exceptions\<close>

text \<open>
  The module \<^verbatim>\<open>tools/_shared/utils/port_utils.py\<close> keeps a registry of
  allocated ports in a JSON file and guards it with an advisory lock on a sentinel
  file. The embedding below follows the module function by function. Everything the
  module obtains from outside (the file system, the lock held by other processes, the
  wall clock, the outcome of a bind) is an explicit argument, and every exception the
  Python can raise on the modelled inputs is a value of \<open>error\<close>.
\<close>

text \<open>
  A Python float as \<^verbatim>\<open>json.load\<close> and \<^verbatim>\<open>time.time\<close> produce it. Finite
  floats are idealised as reals; the three special values are kept apart because
  \<^verbatim>\<open>json.load\<close> accepts \<^verbatim>\<open>Infinity\<close>, \<^verbatim>\<open>-Infinity\<close> and \<^verbatim>\<open>NaN\<close>.
\<close>

datatype pyfloat = Finite real | PosInf | NegInf | NaN

text \<open>
  The value \<^verbatim>\<open>json.load\<close> returns. An object is a Python dict: an association list
  in insertion order.
\<close>

datatype json =
    JNull
  | JBool bool
  | JInt int
  | JFloat pyfloat
  | JStr string
  | JArr "json list"
  | JObj "(string \<times> json) list"

text \<open>
  The exceptions that occur in the module. \<open>IOError\<close> is Python's \<^verbatim>\<open>OSError\<close>
  (the two names denote one class); \<open>RuntimeError\<close> carries its message.
\<close>

datatype error =
    RuntimeError string
  | IOError
  | JSONDecodeError
  | UnicodeDecodeError
  | OverflowError
  | TypeError
  | KeyError
  | AttributeError
  | ValueError
  | RecursionError

subsection \<open>Dict operations\<close>

text \<open>\<^verbatim>\<open>d.get(k)\<close>: the value stored under a key, if any.\<close>

definition dict_get :: "(string \<times> 'v) list \<Rightarrow> string \<Rightarrow> 'v option" where
  "dict_get d k = map_of d k"

text \<open>
  \<^verbatim>\<open>d[k] = v\<close>: an existing key keeps its position and gets the new value, a new key
  is appended at the end.
\<close>

primrec dict_setitem :: "(string \<times> 'v) list \<Rightarrow> string \<Rightarrow> 'v \<Rightarrow> (string \<times> 'v) list" where
  "dict_setitem [] k v = [(k, v)]"
| "dict_setitem (p # ps) k v = (if fst p = k then (k, v) # ps else p # dict_setitem ps k v)"


definition dict_values :: "(string \<times> 'v) list \<Rightarrow> 'v list" where
  "dict_values d = map snd d"

subsection \<open>Subscription, membership, hashing, equality with an int\<close>

text \<open>
  \<^verbatim>\<open>v[key]\<close> for a string key: only a dict can be subscripted by a string; a missing
  key is a KeyError, every other value raises TypeError.
\<close>

definition getitem :: "json \<Rightarrow> string \<Rightarrow> error + json" where
  "getitem v key =
     (case v of
        JObj d \<Rightarrow> (case dict_get d key of None \<Rightarrow> Inl KeyError | Some x \<Rightarrow> Inr x)
      | _ \<Rightarrow> Inl TypeError)"

primrec starts_with :: "string \<Rightarrow> string \<Rightarrow> bool" where
  "starts_with s [] = True"
| "starts_with s (c # cs) = (case s of [] \<Rightarrow> False | x # xs \<Rightarrow> x = c \<and> starts_with xs cs)"

primrec is_substring :: "string \<Rightarrow> string \<Rightarrow> bool" where
  "is_substring needle [] = (needle = [])"
| "is_substring needle (c # cs) = (starts_with (c # cs) needle \<or> is_substring needle cs)"

text \<open>
  \<^verbatim>\<open>key in v\<close> for a string key: key membership for a dict, element membership for
  a list, substring test for a string, TypeError for values that are not iterable.
\<close>

definition contains :: "json \<Rightarrow> string \<Rightarrow> error + bool" where
  "contains v key =
     (case v of
        JObj d \<Rightarrow> Inr (dict_get d key \<noteq> None)
      | JArr xs \<Rightarrow> Inr (List.member xs (JStr key))
      | JStr s \<Rightarrow> Inr (is_substring key s)
      | _ \<Rightarrow> Inl TypeError)"

text \<open>Lists and dicts are unhashable and cannot be put into a set.\<close>

definition hashable :: "json \<Rightarrow> bool" where
  "hashable v = (case v of JArr _ \<Rightarrow> False | JObj _ \<Rightarrow> False | _ \<Rightarrow> True)"

text \<open>
  \<^verbatim>\<open>port == v\<close> for an int \<open>port\<close>: numbers compare by value (a bool is the int 0
  or 1), everything else is unequal.
\<close>

definition int_eq :: "int \<Rightarrow> json \<Rightarrow> bool" where
  "int_eq port v =
     (case v of
        JInt n \<Rightarrow> n = port
      | JBool b \<Rightarrow> port = (if b then 1 else 0)
      | JFloat (Finite x) \<Rightarrow> x = of_int port
      | _ \<Rightarrow> False)"

text \<open>\<^verbatim>\<open>port in allocated_ports\<close>, the set held as the list of its elements.\<close>

definition in_ports :: "int \<Rightarrow> json list \<Rightarrow> bool" where
  "in_ports port allocated_ports = list_ex (int_eq port) allocated_ports"

subsection \<open>Formatting an int\<close>

definition digit_char :: "nat \<Rightarrow> char" where
  "digit_char d = ''0123456789'' ! d"

fun str_nat :: "nat \<Rightarrow> string" where
  "str_nat n = (if n < 10 then [digit_char n] else str_nat (n div 10) @ [digit_char (n mod 10)])"

declare str_nat.simps [simp del]

text \<open>\<^verbatim>\<open>str(i)\<close>, which is what an f-string inserts for an int.\<close>

definition str_int :: "int \<Rightarrow> string" where
  "str_int i = (if i < 0 then CHR ''-'' # str_nat (nat (- i)) else str_nat (nat i))"

section \<open>The world outside the module\<close>

text \<open>
  What \<^verbatim>\<open>path.exists()\<close>, \<^verbatim>\<open>open(path, 'r')\<close> and \<^verbatim>\<open>json.load\<close> find at a
  path:
  \<^item> \<open>Absent\<close>: no file;
  \<^item> \<open>Inaccessible\<close>: the existence test itself raises, as \<^verbatim>\<open>Path.exists\<close> does
    with PermissionError under a directory that may not be searched;
  \<^item> \<open>Unreadable\<close>: a file (or directory) that exists and cannot be opened or read;
  \<^item> \<open>Undecodable\<close>: bytes that are not text in the default encoding;
  \<^item> \<open>Malformed\<close>: text that is not JSON, an empty or truncated file included;
  \<^item> \<open>Oversized\<close>: JSON with an integer of more digits than \<^verbatim>\<open>int\<close> converts,
    on which \<^verbatim>\<open>json.load\<close> raises ValueError;
  \<^item> \<open>Overnested\<close>: JSON nested so deep that \<^verbatim>\<open>json.load\<close> raises
    RecursionError;
  \<^item> \<open>Json v\<close>: a document \<^verbatim>\<open>json.load\<close> accepts, given by the value it returns.
\<close>

datatype file_state =
    Absent
  | Inaccessible
  | Unreadable
  | Undecodable
  | Malformed
  | Oversized
  | Overnested
  | Json json

text \<open>
  The three files of a workspace root: the sentinel \<^verbatim>\<open>.port_allocation.lock\<close>
  (only its existence matters), the registry \<^verbatim>\<open>.ports.json\<close> and the temporary
  \<^verbatim>\<open>.ports.json.tmp\<close>.
\<close>

record workspace =
  lock_file :: bool
  ports_file :: file_state
  temp_file :: file_state

type_synonym path = string

type_synonym fs = "path \<Rightarrow> workspace"

text \<open>
  What the process may do with the sentinel of a root: \<^verbatim>\<open>touch(exist_ok=True)\<close>
  raises FileNotFoundError or PermissionError (the root is missing or may not be
  written, or the sentinel belongs to someone else), or the touch works and
  \<^verbatim>\<open>open(lock_file_path, 'r+')\<close> raises PermissionError, or both work.
\<close>

datatype sentinel_access = Usable | Touch_fails | Open_fails

text \<open>
  Which of the three file operations that write the registry raises an OSError, if
  any: opening the temporary file, writing and closing it (a full disk), or the
  rename (the target is a directory, the directory may not be written).
\<close>

datatype write_fault = No_fault | Temp_open_fails | Dump_fails | Replace_fails

text \<open>
  The environment of one call.
  \<^item> \<open>default_root\<close> is \<^verbatim>\<open>Path(__file__).parent.parent.parent\<close>.
  \<^item> \<open>held i\<close>: at the \<open>i\<close>-th moment the call looks at the lock, another process
    holds it.
  \<^item> \<open>time0\<close> is the first reading of \<^verbatim>\<open>time.time()\<close> in the call; \<open>delay i\<close> is
    the time by which the clock moves in round \<open>i\<close> of the polling loop besides the
    requested sleep; it is negative when the wall clock is set back.
  \<^item> \<open>fsub\<close> is the subtraction of two clock readings as the interpreter computes
    it on floats.
  \<^item> \<open>bind_ok port\<close>: the operating system lets a fresh TCP socket with SO_REUSEADDR
    bind \<^verbatim>\<open>0.0.0.0:port\<close>; when it is false the socket calls raise OSError.
  \<^item> \<open>sentinel r\<close> and \<open>write_fault\<close>: see above.
\<close>

record env =
  default_root :: path
  held :: "nat \<Rightarrow> bool"
  time0 :: real
  delay :: "nat \<Rightarrow> real"
  fsub :: "real \<Rightarrow> real \<Rightarrow> real"
  bind_ok :: "int \<Rightarrow> bool"
  sentinel :: "path \<Rightarrow> sentinel_access"
  write_fault :: write_fault

section \<open>is_port_available\<close>

text \<open>
  \<^verbatim>\<open>s.bind(('0.0.0.0', port))\<close>. The socket module checks the port itself before
  it asks the operating system: a port outside \<open>0..65535\<close> raises OverflowError
  (\<^verbatim>\<open>bind(): port must be 0-65535.\<close>), which is not an OSError.
\<close>

datatype bind_outcome = Bound | Raises_OSError | Raises_OverflowError

definition socket_bind :: "env \<Rightarrow> int \<Rightarrow> bind_outcome" where
  "socket_bind e port =
     (if port < 0 \<or> 65535 < port then Raises_OverflowError
      else if bind_ok e port then Bound
      else Raises_OSError)"

text \<open>The \<^verbatim>\<open>try\<close> returns True after the bind; \<^verbatim>\<open>except OSError\<close> returns False.\<close>

definition is_port_available :: "env \<Rightarrow> int \<Rightarrow> error + bool" where
  "is_port_available e port =
     (case socket_bind e port of
        Bound \<Rightarrow> Inr True
      | Raises_OSError \<Rightarrow> Inr False
      | Raises_OverflowError \<Rightarrow> Inl OverflowError)"

section \<open>Reading the registry file\<close>

text \<open>
  \<^verbatim>\<open>with open(ports_file, 'r') as f: json.load(f)\<close>: opening raises IOError,
  decoding the bytes raises UnicodeDecodeError, parsing raises JSONDecodeError, and the
  conversion of an accepted document raises ValueError or RecursionError.
\<close>

definition open_and_load :: "file_state \<Rightarrow> error + json" where
  "open_and_load f =
     (case f of
        Absent \<Rightarrow> Inl IOError
      | Inaccessible \<Rightarrow> Inl IOError
      | Unreadable \<Rightarrow> Inl IOError
      | Undecodable \<Rightarrow> Inl UnicodeDecodeError
      | Malformed \<Rightarrow> Inl JSONDecodeError
      | Oversized \<Rightarrow> Inl ValueError
      | Overnested \<Rightarrow> Inl RecursionError
      | Json v \<Rightarrow> Inr v)"

text \<open>
  \<^verbatim>\<open>ports_file.exists()\<close>: False when there is no file, and the OSError of the
  \<^verbatim>\<open>stat\<close> call when the path cannot be examined. The call stands outside the
  \<^verbatim>\<open>try\<close> of all four functions.
\<close>

definition exists_file :: "file_state \<Rightarrow> error + bool" where
  "exists_file f =
     (case f of
        Absent \<Rightarrow> Inr False
      | Inaccessible \<Rightarrow> Inl IOError
      | _ \<Rightarrow> Inr True)"

text \<open>The clause \<^verbatim>\<open>except (json.JSONDecodeError, IOError)\<close> of all four functions.\<close>

definition caught :: "error \<Rightarrow> bool" where
  "caught err = (err = JSONDecodeError \<or> err = IOError)"

text \<open>
  A \<^verbatim>\<open>try\<close> block whose handler yields \<open>fallback\<close>; an exception the clause does
  not name propagates.
\<close>

definition try_except :: "error + 'a \<Rightarrow> 'a \<Rightarrow> error + 'a" where
  "try_except body fallback =
     (case body of
        Inl err \<Rightarrow> if caught err then Inr fallback else Inl err
      | Inr v \<Rightarrow> Inr v)"

text \<open>Sequencing of two computations that may raise.\<close>

definition and_then :: "error + 'a \<Rightarrow> ('a \<Rightarrow> error + 'b) \<Rightarrow> error + 'b" where
  "and_then m f = (case m of Inl err \<Rightarrow> Inl err | Inr v \<Rightarrow> f v)"

text \<open>The \<^verbatim>\<open>workspace_root\<close> argument with its default \<^verbatim>\<open>None\<close>.\<close>

definition resolve_root :: "env \<Rightarrow> path option \<Rightarrow> path" where
  "resolve_root e workspace_root =
     (case workspace_root of None \<Rightarrow> default_root e | Some r \<Rightarrow> r)"

text \<open>The \<^verbatim>\<open>max_attempts\<close> argument with its default \<^verbatim>\<open>100\<close>.\<close>

definition max_attempts_of :: "int option \<Rightarrow> int" where
  "max_attempts_of max_attempts = (case max_attempts of None \<Rightarrow> 100 | Some n \<Rightarrow> n)"

section \<open>find_available_port_with_lock\<close>

text \<open>\<^verbatim>\<open>lock_file_path.touch(exist_ok=True)\<close>\<close>

definition touch_lock :: "fs \<Rightarrow> path \<Rightarrow> fs" where
  "touch_lock fs r = fs(r := (fs r)\<lparr>lock_file := True\<rparr>)"

definition max_wait :: real where
  "max_wait = 10"

definition timeout_message :: string where
  "timeout_message = ''Timeout waiting for port allocation lock''"

text \<open>
  The \<^verbatim>\<open>while True\<close> loop around \<^verbatim>\<open>flock(LOCK_EX | LOCK_NB)\<close>. Round \<open>i\<close> tries
  the lock; when another process holds it, the clock is read (\<open>delay e i\<close> after the
  previous moment), the start reading is subtracted from it and the difference is
  compared with the budget, and the loop sleeps for 100 ms. The loop has no bound of
  its own, so not returning is the value \<open>None\<close>.
\<close>

partial_function (option) poll_lock :: "env \<Rightarrow> real \<Rightarrow> real \<Rightarrow> nat \<Rightarrow> (error + unit) option" where
  "poll_lock e start_time now i =
     (if \<not> held e i then Some (Inr ())
      else (let t = now + delay e i
            in if fsub e t start_time > max_wait
               then Some (Inl (RuntimeError timeout_message))
               else poll_lock e start_time (t + 1 / 10) (Suc i)))"

text \<open>
  The reading of \<^verbatim>\<open>time.time()\<close> in round \<open>i\<close> of the loop, when the loop gets
  that far: the first reading, the sleeps and the delays up to that round.
\<close>

primrec clock_at :: "env \<Rightarrow> nat \<Rightarrow> real" where
  "clock_at e 0 = time0 e + delay e 0"
| "clock_at e (Suc i) = clock_at e i + 1 / 10 + delay e (Suc i)"

text \<open>
  The set comprehension \<^verbatim>\<open>{info['port'] for info in ports_data.values()}\<close>, over
  the values in order: the first value that cannot be subscripted, lacks the key or
  yields an unhashable port raises.
\<close>

primrec collect_ports :: "json list \<Rightarrow> error + json list" where
  "collect_ports [] = Inr []"
| "collect_ports (info # rest) =
     and_then (getitem info ''port'')
       (\<lambda>p. if \<not> hashable p then Inl TypeError
            else and_then (collect_ports rest) (\<lambda>ps. Inr (p # ps)))"

text \<open>\<^verbatim>\<open>ports_data.values()\<close>: only a dict has the method.\<close>

definition values_of :: "json \<Rightarrow> error + json list" where
  "values_of ports_data =
     (case ports_data of JObj d \<Rightarrow> Inr (dict_values d) | _ \<Rightarrow> Inl AttributeError)"

text \<open>Lines 81 to 88: the allocated ports, empty when the file is absent or the handler runs.\<close>

definition load_allocated_ports :: "file_state \<Rightarrow> error + json list" where
  "load_allocated_ports f =
     and_then (exists_file f) (\<lambda>present.
       if present
       then try_except
              (and_then (open_and_load f) (\<lambda>ports_data.
                 and_then (values_of ports_data) collect_ports))
              []
       else Inr [])"

text \<open>\<^verbatim>\<open>range(max_attempts)\<close>\<close>

definition py_range :: "int \<Rightarrow> int list" where
  "py_range n = map int [0..<nat n]"

text \<open>
  The \<^verbatim>\<open>for offset in range(max_attempts)\<close> loop; \<open>Inr None\<close> is the loop running
  to its end without a \<^verbatim>\<open>return\<close>.
\<close>

primrec scan_ports :: "env \<Rightarrow> json list \<Rightarrow> int \<Rightarrow> int list \<Rightarrow> error + int option" where
  "scan_ports e allocated_ports preferred_port [] = Inr None"
| "scan_ports e allocated_ports preferred_port (offset # rest) =
     (let port = preferred_port + offset
      in if in_ports port allocated_ports
         then scan_ports e allocated_ports preferred_port rest
         else and_then (is_port_available e port)
                (\<lambda>available. if available then Inr (Some port)
                             else scan_ports e allocated_ports preferred_port rest))"

definition exhausted_message :: "int \<Rightarrow> int \<Rightarrow> string" where
  "exhausted_message preferred_port max_attempts =
     ''Could not find available port starting from '' @ str_int preferred_port @
     '' after '' @ str_int max_attempts @ '' attempts''"

text \<open>The body executed under the lock (lines 79 to 105).\<close>

definition allocate_locked :: "env \<Rightarrow> file_state \<Rightarrow> int \<Rightarrow> int \<Rightarrow> error + int" where
  "allocate_locked e f preferred_port max_attempts =
     and_then (load_allocated_ports f) (\<lambda>allocated_ports.
       and_then (scan_ports e allocated_ports preferred_port (py_range max_attempts))
         (\<lambda>found. case found of
                     Some port \<Rightarrow> Inr port
                   | None \<Rightarrow> Inl (RuntimeError (exhausted_message preferred_port max_attempts))))"

text \<open>
  The whole function. The result pairs what the call returns or raises with the file
  system it leaves; \<open>None\<close> is a call that never returns. A sentinel that cannot be
  touched or opened ends the call before the loop. Releasing the lock in the
  \<^verbatim>\<open>finally\<close> clause changes no file.
\<close>

definition find_available_port_with_lock ::
  "env \<Rightarrow> fs \<Rightarrow> int \<Rightarrow> int option \<Rightarrow> path option \<Rightarrow> ((error + int) \<times> fs) option" where
  "find_available_port_with_lock e fs preferred_port max_attempts_arg workspace_root =
     (let max_attempts = max_attempts_of max_attempts_arg;
          r = resolve_root e workspace_root;
          fs1 = touch_lock fs r
      in case sentinel e r of
           Touch_fails \<Rightarrow> Some (Inl IOError, fs)
         | Open_fails \<Rightarrow> Some (Inl IOError, fs1)
         | Usable \<Rightarrow>
             (case poll_lock e (time0 e) (time0 e) 0 of
                None \<Rightarrow> None
              | Some (Inl err) \<Rightarrow> Some (Inl err, fs1)
              | Some (Inr _) \<Rightarrow>
                  Some (allocate_locked e (ports_file (fs1 r)) preferred_port max_attempts,
                        fs1)))"

section \<open>find_available_port\<close>

definition find_available_port ::
  "env \<Rightarrow> fs \<Rightarrow> int \<Rightarrow> int option \<Rightarrow> ((error + int) \<times> fs) option" where
  "find_available_port e fs preferred_port max_attempts_arg =
     (let max_attempts = max_attempts_of max_attempts_arg
      in find_available_port_with_lock e fs preferred_port (Some max_attempts) None)"

section \<open>save_app_port\<close>

text \<open>
  The blocking \<^verbatim>\<open>fcntl.flock(fd, LOCK_EX)\<close>: it returns at the first moment no
  other process holds the lock, and does not return while the lock stays held.
\<close>

partial_function (option) flock_blocking :: "env \<Rightarrow> nat \<Rightarrow> nat option" where
  "flock_blocking e i = (if held e i then flock_blocking e (Suc i) else Some i)"

text \<open>The record stored under the app name; \<open>t\<close> is \<^verbatim>\<open>time.time()\<close>.\<close>

definition port_record :: "int \<Rightarrow> real \<Rightarrow> json" where
  "port_record port t =
     JObj [(''port'', JInt port),
           (''url'', JStr (''http://localhost:'' @ str_int port)),
           (''network_url_template'', JStr (''http://{network_ip}:'' @ str_int port)),
           (''timestamp'', JFloat (Finite t))]"

text \<open>Lines 140 to 146: the existing registry, or an empty dict.\<close>

definition load_ports_data :: "file_state \<Rightarrow> error + json" where
  "load_ports_data f =
     and_then (exists_file f) (\<lambda>present.
       if present then try_except (open_and_load f) (JObj []) else Inr (JObj []))"

text \<open>\<^verbatim>\<open>ports_data[app_name] = record\<close>: item assignment with a string key needs a dict.\<close>

definition setitem :: "json \<Rightarrow> string \<Rightarrow> json \<Rightarrow> error + json" where
  "setitem ports_data key v =
     (case ports_data of
        JObj d \<Rightarrow> Inr (JObj (dict_setitem d key v))
      | _ \<Rightarrow> Inl TypeError)"

text \<open>Lines 140 to 154: the registry to be written.\<close>

definition updated_registry :: "file_state \<Rightarrow> string \<Rightarrow> int \<Rightarrow> real \<Rightarrow> error + json" where
  "updated_registry f app_name port t =
     and_then (load_ports_data f) (\<lambda>ports_data. setitem ports_data app_name (port_record port t))"

text \<open>
  The three file operations of lines 157 to 162. \<^verbatim>\<open>open(temp_file, 'w')\<close> leaves an
  empty file, which is not JSON, and so is every proper prefix of the document while
  \<^verbatim>\<open>json.dump\<close> writes; closing the file leaves the whole document;
  \<^verbatim>\<open>temp_file.replace(ports_file)\<close> is one rename.
\<close>

definition open_temp :: "fs \<Rightarrow> path \<Rightarrow> fs" where
  "open_temp fs r = fs(r := (fs r)\<lparr>temp_file := Malformed\<rparr>)"

definition dump_temp :: "fs \<Rightarrow> path \<Rightarrow> json \<Rightarrow> fs" where
  "dump_temp fs r v = fs(r := (fs r)\<lparr>temp_file := Json v\<rparr>)"

definition replace_temp :: "fs \<Rightarrow> path \<Rightarrow> fs" where
  "replace_temp fs r = fs(r := (fs r)\<lparr>ports_file := temp_file (fs r), temp_file := Absent\<rparr>)"

text \<open>
  The file system at every moment of a call, first to last: before the call, after
  the touch, and, when the lock is obtained and the new registry is built, after each
  of the three file operations, up to the one that raises.
\<close>

definition save_steps :: "env \<Rightarrow> fs \<Rightarrow> string \<Rightarrow> int \<Rightarrow> path option \<Rightarrow> fs list" where
  "save_steps e fs app_name port workspace_root =
     (let r = resolve_root e workspace_root;
          fs1 = touch_lock fs r
      in case sentinel e r of
           Touch_fails \<Rightarrow> [fs]
         | Open_fails \<Rightarrow> [fs, fs1]
         | Usable \<Rightarrow>
             (case flock_blocking e 0 of
                None \<Rightarrow> [fs, fs1]
              | Some _ \<Rightarrow>
                  (case updated_registry (ports_file (fs1 r)) app_name port (time0 e) of
                     Inl err \<Rightarrow> [fs, fs1]
                   | Inr ports_data \<Rightarrow>
                       (let fs2 = open_temp fs1 r;
                            fs3 = dump_temp fs2 r ports_data;
                            fs4 = replace_temp fs3 r
                        in case write_fault e of
                             Temp_open_fails \<Rightarrow> [fs, fs1]
                           | Dump_fails \<Rightarrow> [fs, fs1, fs2]
                           | Replace_fails \<Rightarrow> [fs, fs1, fs2, fs3]
                           | No_fault \<Rightarrow> [fs, fs1, fs2, fs3, fs4]))))"

text \<open>
  The whole function; \<open>None\<close> is a call that never returns. A file operation that
  raises ends the call with what the earlier ones have left: an empty or partly
  written temporary file after a failed write, the complete one after a failed rename.
\<close>

definition save_app_port ::
  "env \<Rightarrow> fs \<Rightarrow> string \<Rightarrow> int \<Rightarrow> path option \<Rightarrow> ((error + unit) \<times> fs) option" where
  "save_app_port e fs app_name port workspace_root =
     (let r = resolve_root e workspace_root;
          fs1 = touch_lock fs r
      in case sentinel e r of
           Touch_fails \<Rightarrow> Some (Inl IOError, fs)
         | Open_fails \<Rightarrow> Some (Inl IOError, fs1)
         | Usable \<Rightarrow>
             (case flock_blocking e 0 of
                None \<Rightarrow> None
              | Some _ \<Rightarrow>
                  (case updated_registry (ports_file (fs1 r)) app_name port (time0 e) of
                     Inl err \<Rightarrow> Some (Inl err, fs1)
                   | Inr ports_data \<Rightarrow>
                       (let fs2 = open_temp fs1 r;
                            fs3 = dump_temp fs2 r ports_data;
                            fs4 = replace_temp fs3 r
                        in case write_fault e of
                             Temp_open_fails \<Rightarrow> Some (Inl IOError, fs1)
                           | Dump_fails \<Rightarrow> Some (Inl IOError, fs2)
                           | Replace_fails \<Rightarrow> Some (Inl IOError, fs3)
                           | No_fault \<Rightarrow> Some (Inr (), fs4)))))"

section \<open>get_app_port and get_all_app_ports\<close>

definition get_app_port :: "env \<Rightarrow> fs \<Rightarrow> string \<Rightarrow> path option \<Rightarrow> error + json option" where
  "get_app_port e fs app_name workspace_root =
     (let f = ports_file (fs (resolve_root e workspace_root))
      in and_then (exists_file f) (\<lambda>file_present.
           if \<not> file_present then Inr None
           else try_except
                  (and_then (open_and_load f) (\<lambda>ports_data.
                     and_then (contains ports_data app_name) (\<lambda>present.
                       if present
                       then and_then (getitem ports_data app_name) (\<lambda>info.
                              and_then (getitem info ''port'') (\<lambda>p. Inr (Some p)))
                       else Inr None)))
                  None))"

definition get_all_app_ports :: "env \<Rightarrow> fs \<Rightarrow> path option \<Rightarrow> error + json" where
  "get_all_app_ports e fs workspace_root =
     (let f = ports_file (fs (resolve_root e workspace_root))
      in and_then (exists_file f) (\<lambda>file_present.
           if \<not> file_present then Inr (JObj [])
           else try_except (open_and_load f) (JObj [])))"

section \<open>Sample environments\<close>

text \<open>
  No other process at the lock, no time lost, exact subtraction, every port of the
  range free, every file operation allowed.
\<close>

definition idle_env :: env where
  "idle_env = \<lparr>default_root = ''/srv/workspace'', held = (\<lambda>_. False), time0 = 0,
               delay = (\<lambda>_. 0), fsub = (\<lambda>t s. t - s), bind_ok = (\<lambda>_. True),
               sentinel = (\<lambda>_. Usable), write_fault = No_fault\<rparr>"

text \<open>Another process keeps the lock for good; each round of polling takes six seconds.\<close>

definition contended_env :: env where
  "contended_env = idle_env\<lparr>held := (\<lambda>_. True), delay := (\<lambda>_. 6)\<rparr>"

text \<open>A fresh workspace: none of the three files exists under any root.\<close>

definition fresh_fs :: fs where
  "fresh_fs = (\<lambda>_. \<lparr>lock_file = False, ports_file = Absent, temp_file = Absent\<rparr>)"

text \<open>A registry file holding the given JSON value under the default root.\<close>

definition registry_fs :: "json \<Rightarrow> fs" where
  "registry_fs v = fresh_fs(default_root idle_env := (fresh_fs (default_root idle_env))\<lparr>ports_file := Json v\<rparr>)"

text \<open>The registry after two applications have saved their ports.\<close>

definition two_apps :: json where
  "two_apps = JObj [(''project-hub'', port_record 4090 0), (''gsheet'', port_record 4091 0)]"

text \<open>Like \<open>idle_env\<close>, but port 65535 is taken.\<close>

definition last_port_busy_env :: env where
  "last_port_busy_env = idle_env\<lparr>bind_ok := (\<lambda>port. port \<noteq> 65535)\<rparr>"

text \<open>A registry file cut off in the middle of a write under the default root.\<close>

definition truncated_fs :: fs where
  "truncated_fs = fresh_fs(default_root idle_env := (fresh_fs (default_root idle_env))\<lparr>ports_file := Malformed\<rparr>)"

text \<open>A registry path in the given state under the default root.\<close>

definition ports_file_fs :: "file_state \<Rightarrow> fs" where
  "ports_file_fs f = fresh_fs(default_root idle_env := (fresh_fs (default_root idle_env))\<lparr>ports_file := f\<rparr>)"

text \<open>The workspace root does not exist: the touch raises FileNotFoundError.\<close>

definition missing_root_env :: env where
  "missing_root_env = idle_env\<lparr>sentinel := (\<lambda>_. Touch_fails)\<rparr>"

text \<open>
  The sentinel belongs to another user, whose process holds the lock: the touch raises
  PermissionError.
\<close>

definition foreign_sentinel_env :: env where
  "foreign_sentinel_env = idle_env\<lparr>held := (\<lambda>_. True), sentinel := (\<lambda>_. Touch_fails)\<rparr>"

text \<open>
  Another process keeps the lock for good, and the wall clock is set back by 100 ms in
  every round, so that its readings stand still.
\<close>

definition frozen_clock_env :: env where
  "frozen_clock_env = idle_env\<lparr>held := (\<lambda>_. True), delay := (\<lambda>i. if i = 0 then 0 else - (1 / 10))\<rparr>"

text \<open>
  The wall clock is set back by an hour just after the call has read its start time;
  another process holds the lock during the first 200 rounds, which take 20 seconds of
  sleep, and releases it then.
\<close>

definition clock_set_back_env :: env where
  "clock_set_back_env =
     idle_env\<lparr>held := (\<lambda>i. i < 200), delay := (\<lambda>i. if i = 0 then - 3600 else 0)\<rparr>"

section \<open>Facts about the helpers\<close>

subsection \<open>The prober\<close>

lemma is_port_available_in_range:
  "0 \<le> port \<Longrightarrow> port \<le> 65535 \<Longrightarrow> is_port_available e port = Inr (bind_ok e port)"
  by (simp add: is_port_available_def socket_bind_def)

lemma is_port_available_True:
  "is_port_available e port = Inr True \<longleftrightarrow> 0 \<le> port \<and> port \<le> 65535 \<and> bind_ok e port"
  by (auto simp: is_port_available_def socket_bind_def)

lemma is_port_available_out_of_range:
  "port < 0 \<or> 65535 < port \<Longrightarrow> is_port_available e port = Inl OverflowError"
  by (auto simp: is_port_available_def socket_bind_def)

subsection \<open>The existence test and the sample environment\<close>

lemma exists_file_simps [simp]:
  "exists_file Absent = Inr False"
  "exists_file Inaccessible = Inl IOError"
  "exists_file Unreadable = Inr True"
  "exists_file Undecodable = Inr True"
  "exists_file Malformed = Inr True"
  "exists_file Oversized = Inr True"
  "exists_file Overnested = Inr True"
  "exists_file (Json v) = Inr True"
  by (simp_all add: exists_file_def)

lemma idle_env_access [simp]:
  "sentinel idle_env r = Usable"
  "write_fault idle_env = No_fault"
  by (simp_all add: idle_env_def)

subsection \<open>The two ways of taking the lock\<close>

lemma flock_blocking_Some: "flock_blocking e i = Some j \<Longrightarrow> \<not> held e j"
proof (induction rule: flock_blocking.raw_induct [rotated 1, consumes 1])
  case (1 flock_blocking e i j)
  then show ?case by (auto split: if_splits)
qed

lemma flock_blocking_forever: "\<forall>i. held e i \<Longrightarrow> flock_blocking e i = None"
  using flock_blocking_Some by (cases "flock_blocking e i") auto

lemma flock_blocking_free: "\<not> held e i \<Longrightarrow> flock_blocking e i = Some i"
  by (subst flock_blocking.simps) simp

lemma poll_lock_free: "\<not> held e i \<Longrightarrow> poll_lock e s now i = Some (Inr ())"
  by (subst poll_lock.simps) simp

text \<open>The loop, round by round, started in the middle.\<close>

lemma poll_lock_acquires_from:
  assumes free: "\<not> held e k"
    and before: "\<forall>j. i \<le> j \<and> j < k \<longrightarrow> held e j \<and> fsub e (clock_at e j) s \<le> max_wait"
  shows "n = k - i \<Longrightarrow> i \<le> k \<Longrightarrow> poll_lock e s (clock_at e i - delay e i) i = Some (Inr ())"
  using before
proof (induction n arbitrary: i)
  case 0
  then have "i = k" by simp
  with free show ?case by (simp add: poll_lock_free)
next
  case (Suc n)
  then have i: "i < k" "held e i" "fsub e (clock_at e i) s \<le> max_wait" by auto
  have "poll_lock e s (clock_at e (Suc i) - delay e (Suc i)) (Suc i) = Some (Inr ())"
    using Suc.prems by (intro Suc.IH) auto
  then have "poll_lock e s (clock_at e i + 1 / 10) (Suc i) = Some (Inr ())" by simp
  with i show ?case by (subst poll_lock.simps) (simp add: Let_def)
qed

lemma poll_lock_times_out_from:
  assumes over: "fsub e (clock_at e k) s > max_wait" and hk: "held e k"
    and before: "\<forall>j. i \<le> j \<and> j < k \<longrightarrow> held e j \<and> fsub e (clock_at e j) s \<le> max_wait"
  shows "n = k - i \<Longrightarrow> i \<le> k \<Longrightarrow>
         poll_lock e s (clock_at e i - delay e i) i = Some (Inl (RuntimeError timeout_message))"
  using before
proof (induction n arbitrary: i)
  case 0
  then have "i = k" by simp
  with over hk show ?case by (subst poll_lock.simps) (simp add: Let_def)
next
  case (Suc n)
  then have i: "i < k" "held e i" "fsub e (clock_at e i) s \<le> max_wait" by auto
  have "poll_lock e s (clock_at e (Suc i) - delay e (Suc i)) (Suc i) =
        Some (Inl (RuntimeError timeout_message))"
    using Suc.prems by (intro Suc.IH) auto
  then have "poll_lock e s (clock_at e i + 1 / 10) (Suc i) =
        Some (Inl (RuntimeError timeout_message))" by simp
  with i show ?case by (subst poll_lock.simps) (simp add: Let_def)
qed

text \<open>
  The loop in terms of the clock: the lock is obtained in the first round that finds
  it free, provided the time measured in every earlier round was within the budget;
  the timeout is raised in the first round in which the measured time exceeds the
  budget, provided the lock was held up to then.
\<close>

lemma poll_lock_acquires_within_budget:
  assumes "\<not> held e k" and "\<forall>j < k. held e j \<and> fsub e (clock_at e j) (time0 e) \<le> 10"
  shows "poll_lock e (time0 e) (time0 e) 0 = Some (Inr ())"
  using poll_lock_acquires_from [of e k 0 "time0 e" k] assms by (simp add: max_wait_def)

lemma poll_lock_times_out_at:
  assumes "fsub e (clock_at e k) (time0 e) > 10" and "held e k"
    and "\<forall>j < k. held e j \<and> fsub e (clock_at e j) (time0 e) \<le> 10"
  shows "poll_lock e (time0 e) (time0 e) 0 = Some (Inl (RuntimeError timeout_message))"
  using poll_lock_times_out_from [of e k "time0 e" 0 k] assms by (simp add: max_wait_def)

text \<open>
  A loop that returns has found the lock free or the measured time over the budget in
  some round; so it returns nothing while the lock is held and the measured time stays
  within the budget, and it never obtains a lock that is always held.
\<close>

lemma poll_lock_returns:
  "poll_lock e s now i = Some y \<Longrightarrow> now = clock_at e i - delay e i \<Longrightarrow>
   \<exists>k\<ge>i. \<not> held e k \<or> max_wait < fsub e (clock_at e k) s"
proof (induction rule: poll_lock.raw_induct [rotated 1, consumes 1])
  case (1 poll_lock e s now i y)
  show ?case
  proof (cases "held e i")
    case False
    then show ?thesis by blast
  next
    case held: True
    show ?thesis
    proof (cases "max_wait < fsub e (clock_at e i) s")
      case True
      then show ?thesis by blast
    next
      case False
      with held "1.prems" "1.hyps"
      have "poll_lock e s (clock_at e i + 1 / 10) (Suc i) = Some y"
        by (simp add: Let_def)
      moreover have "clock_at e i + 1 / 10 = clock_at e (Suc i) - delay e (Suc i)" by simp
      ultimately have "\<exists>k\<ge>Suc i. \<not> held e k \<or> max_wait < fsub e (clock_at e k) s"
        using "1.IH" by blast
      then show ?thesis by (meson Suc_leD)
    qed
  qed
qed

lemma poll_lock_never_returns:
  assumes "\<forall>i. held e i" and "\<forall>k. fsub e (clock_at e k) (time0 e) \<le> 10"
  shows "poll_lock e (time0 e) (time0 e) 0 = None"
proof (cases "poll_lock e (time0 e) (time0 e) 0")
  case None
  then show ?thesis .
next
  case (Some y)
  from poll_lock_returns [OF Some] obtain k where
    "\<not> held e k \<or> max_wait < fsub e (clock_at e k) (time0 e)" by auto
  with assms show ?thesis by (auto simp: max_wait_def not_less [symmetric])
qed

lemma poll_lock_obtains:
  "poll_lock e s now i = Some y \<Longrightarrow> y = Inr () \<Longrightarrow> \<exists>k. \<not> held e k"
proof (induction rule: poll_lock.raw_induct [rotated 1, consumes 1])
  case (1 poll_lock e s now i y)
  then show ?case by (auto simp: Let_def split: if_splits)
qed

text \<open>
  When the clock is never set back, round \<open>k\<close> reads at least \<open>k\<close> tenths of a second
  after the start; a subtraction that is off by less than a second then measures
  more than the budget in round 110 at the latest.
\<close>

lemma clock_at_lower_bound:
  assumes "\<forall>i. 0 \<le> delay e i"
  shows "time0 e + real k / 10 \<le> clock_at e k"
proof (induction k)
  case 0
  from assms have "0 \<le> delay e 0" by simp
  then show ?case by simp
next
  case (Suc k)
  from assms have "0 \<le> delay e (Suc k)" by simp
  with Suc show ?case by (simp add: field_simps)
qed

lemma budget_elapses_by_round_110:
  assumes "\<forall>i. 0 \<le> delay e i" and "\<forall>t s. 11 \<le> t - s \<longrightarrow> 10 < fsub e t s"
  shows "10 < fsub e (clock_at e 110) (time0 e)"
proof -
  from clock_at_lower_bound [OF assms(1), of 110] have "11 \<le> clock_at e 110 - time0 e" by simp
  with assms(2) show ?thesis by blast
qed

subsection \<open>Formatting\<close>

lemma str_int_4091: "str_int 4091 = ''4091''"
  by (simp add: str_int_def digit_char_def str_nat.simps [of 4091] str_nat.simps [of 409]
      str_nat.simps [of 40] str_nat.simps [of 4])

lemma str_int_negative: "str_int (- 17) = ''-17''"
  by (simp add: str_int_def digit_char_def str_nat.simps [of 17] str_nat.simps [of 1]
      str_nat.simps [of "Suc 0"])

lemma exhausted_message_65535_2:
  "exhausted_message 65535 2 =
     ''Could not find available port starting from 65535 after 2 attempts''"
  by (simp add: exhausted_message_def str_int_def digit_char_def str_nat.simps [of 65535]
      str_nat.simps [of 6553] str_nat.simps [of 655] str_nat.simps [of 65] str_nat.simps [of 6]
      str_nat.simps [of 2])

subsection \<open>The scan\<close>

lemma ports_file_touch_lock [simp]: "ports_file (touch_lock fs r r') = ports_file (fs r')"
  by (simp add: touch_lock_def)

lemma scan_ports_skip:
  "\<forall>off \<in> set pre. in_ports (p + off) allocated \<or> is_port_available e (p + off) = Inr False \<Longrightarrow>
   scan_ports e allocated p (pre @ rest) = scan_ports e allocated p rest"
  by (induction pre) (auto simp: and_then_def Let_def)

lemma scan_ports_hit:
  "\<not> in_ports (p + off) allocated \<Longrightarrow> is_port_available e (p + off) = Inr True \<Longrightarrow>
   scan_ports e allocated p (off # rest) = Inr (Some (p + off))"
  by (simp add: and_then_def Let_def)

lemma scan_ports_exhausted:
  "\<forall>off \<in> set offs. in_ports (p + off) allocated \<or> is_port_available e (p + off) = Inr False \<Longrightarrow>
   scan_ports e allocated p offs = Inr None"
  using scan_ports_skip [of offs p allocated e "[]"] by simp

lemma scan_ports_sound:
  "scan_ports e allocated p offs = Inr (Some c) \<Longrightarrow>
   \<exists>off \<in> set offs. c = p + off \<and> \<not> in_ports c allocated \<and> is_port_available e c = Inr True"
  by (induction offs) (auto simp: and_then_def Let_def split: if_splits sum.splits)

lemma py_range_split:
  "0 \<le> k \<Longrightarrow> k < n \<Longrightarrow>
   py_range n = map int [0..<nat k] @ k # map int [Suc (nat k)..<nat n]"
proof -
  assume k: "0 \<le> k" "k < n"
  then have "nat k < nat n" by simp
  then have "[0..<nat n] = [0..<nat k] @ nat k # [Suc (nat k)..<nat n]"
    by (metis le0 upt_conv_Cons upt_add_eq_append le_add_diff_inverse less_imp_le_nat)
  then show ?thesis using k by (simp add: py_range_def)
qed

lemma set_py_range: "set (py_range n) = {off. 0 \<le> off \<and> off < n}"
proof -
  have "off \<in> int ` {0..<nat n} \<longleftrightarrow> 0 \<le> off \<and> off < n" for off
  proof
    assume "off \<in> int ` {0..<nat n}" then show "0 \<le> off \<and> off < n" by auto
  next
    assume "0 \<le> off \<and> off < n"
    then have "nat off \<in> {0..<nat n}" "int (nat off) = off" by auto
    then show "off \<in> int ` {0..<nat n}" by (metis imageI)
  qed
  then show ?thesis by (auto simp: py_range_def)
qed

text \<open>
  From a non-negative start, every candidate below a usable one is a port of the
  range, so the prober answers for it and the scan reaches the first usable one.
\<close>

lemma scan_ports_least:
  assumes nonneg: "0 \<le> p"
    and c: "p \<le> c" "c < p + n" "\<not> in_ports c allocated" "is_port_available e c = Inr True"
    and least: "\<forall>c'. p \<le> c' \<and> c' < c \<longrightarrow>
                  in_ports c' allocated \<or> is_port_available e c' \<noteq> Inr True"
  shows "scan_ports e allocated p (py_range n) = Inr (Some c)"
proof -
  have c_hi: "c \<le> 65535" using c(4) by (simp add: is_port_available_True)
  define k where "k = c - p"
  have k: "0 \<le> k" "k < n" "p + k = c" using c(1,2) by (simp_all add: k_def)
  have skip: "in_ports (p + off) allocated \<or> is_port_available e (p + off) = Inr False"
    if "off \<in> set (map int [0..<nat k])" for off
  proof -
    from that have off: "0 \<le> off" "off < k" by auto
    then have range: "0 \<le> p + off" "p + off \<le> 65535" "p \<le> p + off" "p + off < c"
      using nonneg c_hi k(3) by simp_all
    show ?thesis
    proof (cases "in_ports (p + off) allocated")
      case True
      then show ?thesis by simp
    next
      case False
      with least range have "is_port_available e (p + off) \<noteq> Inr True" by blast
      then show ?thesis using is_port_available_in_range [OF range(1,2), of e] by auto
    qed
  qed
  have "scan_ports e allocated p (py_range n) =
        scan_ports e allocated p (k # map int [Suc (nat k)..<nat n])"
    using skip by (simp add: py_range_split [OF k(1,2)] scan_ports_skip)
  also have "\<dots> = Inr (Some (p + k))"
    using c(3,4) k(3) by (intro scan_ports_hit) simp_all
  finally show ?thesis using k(3) by simp
qed

lemma load_two_apps:
  "load_allocated_ports (ports_file (registry_fs two_apps (resolve_root idle_env None))) =
     Inr [JInt 4090, JInt 4091]"
  by (simp add: registry_fs_def fresh_fs_def resolve_root_def idle_env_def two_apps_def
      port_record_def load_allocated_ports_def exists_file_def try_except_def and_then_def
      open_and_load_def values_of_def dict_values_def getitem_def dict_get_def hashable_def)

lemma load_absent [simp]: "load_allocated_ports Absent = Inr []"
  by (simp add: load_allocated_ports_def exists_file_def and_then_def)

text \<open>
  The registries from which the allocated ports can be formed: no file, a file that
  cannot be opened or is not JSON (no ports), or a JSON object whose values all have
  a hashable \<^verbatim>\<open>port\<close>.
\<close>

lemma getitem_error: "getitem v key = Inl err \<Longrightarrow> err = TypeError \<or> err = KeyError"
  by (auto simp: getitem_def split: json.splits option.splits)

lemma collect_ports_error:
  "collect_ports infos = Inl err \<Longrightarrow> err = TypeError \<or> err = KeyError"
proof (induction infos)
  case Nil
  then show ?case by simp
next
  case (Cons info rest)
  then show ?case
    by (auto simp: and_then_def split: sum.splits if_splits dest: getitem_error)
qed

lemma load_allocated_ports_Inr:
  "load_allocated_ports f = Inr allocated \<longleftrightarrow>
     (f = Absent \<or> f = Unreadable \<or> f = Malformed) \<and> allocated = [] \<or>
     (\<exists>d. f = Json (JObj d) \<and> collect_ports (dict_values d) = Inr allocated)"
  by (cases f)
     (auto simp: load_allocated_ports_def exists_file_def try_except_def and_then_def
        open_and_load_def values_of_def caught_def split: sum.splits json.splits
        dest: collect_ports_error)

section \<open>The allocator\<close>

text \<open>
  C1 (as amended). When the sentinel can be touched and opened, the lock is obtained
  and the allocated ports can be formed from the registry, a call with a preferred
  port that is not negative returns the smallest candidate \<open>preferred_port + offset\<close>,
  \<open>0 \<le> offset < max_attempts\<close>, that is not among the allocated ports and that
  \<open>is_port_available\<close> reports bindable, whenever such a candidate exists; the call
  leaves the file system as it was apart from the sentinel. The two instances of the
  claim follow: with no conflict at all the candidate of offset 0 is the smallest, and
  with the first two candidates allocated and the third one bindable and unallocated
  the smallest is \<open>preferred_port + 2\<close>.
\<close>

theorem allocate_smallest_candidate:
  assumes usable: "sentinel e (resolve_root e root_arg) = Usable"
    and lock: "poll_lock e (time0 e) (time0 e) 0 = Some (Inr ())"
    and load: "load_allocated_ports (ports_file (fs (resolve_root e root_arg))) = Inr allocated"
    and nonneg: "0 \<le> preferred_port"
    and cand: "preferred_port \<le> c" "c < preferred_port + max_attempts_of max_attempts"
      "\<not> in_ports c allocated" "is_port_available e c = Inr True"
  shows "\<exists>port.
           find_available_port_with_lock e fs preferred_port max_attempts root_arg =
             Some (Inr port, touch_lock fs (resolve_root e root_arg)) \<and>
           preferred_port \<le> port \<and> port < preferred_port + max_attempts_of max_attempts \<and>
           \<not> in_ports port allocated \<and> is_port_available e port = Inr True \<and>
           (\<forall>c'. preferred_port \<le> c' \<and> c' < preferred_port + max_attempts_of max_attempts \<and>
                 \<not> in_ports c' allocated \<and> is_port_available e c' = Inr True \<longrightarrow> port \<le> c')"
proof -
  define n where "n = max_attempts_of max_attempts"
  define C where "C = {c'. preferred_port \<le> c' \<and> c' < preferred_port + n \<and>
                          \<not> in_ports c' allocated \<and> is_port_available e c' = Inr True}"
  have "C \<subseteq> {preferred_port..<preferred_port + n}" by (auto simp: C_def)
  then have fin: "finite C" by (rule finite_subset) simp
  have ne: "C \<noteq> {}" using cand by (auto simp: C_def n_def)
  define port where "port = Min C"
  have in_C: "port \<in> C" unfolding port_def using fin ne by (rule Min_in)
  have le: "port \<le> c'" if "c' \<in> C" for c' unfolding port_def using fin that by (rule Min_le)
  have below: "\<forall>c'. preferred_port \<le> c' \<and> c' < port \<longrightarrow>
                 in_ports c' allocated \<or> is_port_available e c' \<noteq> Inr True"
  proof (intro allI impI)
    fix c' assume c': "preferred_port \<le> c' \<and> c' < port"
    show "in_ports c' allocated \<or> is_port_available e c' \<noteq> Inr True"
    proof (rule ccontr)
      assume "\<not> ?thesis"
      with c' in_C have "c' \<in> C" by (auto simp: C_def)
      with le c' show False by force
    qed
  qed
  have scan: "scan_ports e allocated preferred_port (py_range n) = Inr (Some port)"
    using in_C below by (intro scan_ports_least [OF nonneg]) (simp_all add: C_def)
  have "find_available_port_with_lock e fs preferred_port max_attempts root_arg =
          Some (Inr port, touch_lock fs (resolve_root e root_arg))"
    using usable lock load scan
    by (simp add: find_available_port_with_lock_def allocate_locked_def and_then_def n_def)
  then show ?thesis using in_C le by (auto simp: C_def n_def)
qed

text \<open>
  The second instance of the claim at 4090: ports 4090 and 4091 are in the registry,
  4092 is free, and the call returns 4092.
\<close>

theorem allocate_smallest_candidate_witness:
  "find_available_port_with_lock idle_env (registry_fs two_apps) 4090 None None =
     Some (Inr 4092, touch_lock (registry_fs two_apps) ''/srv/workspace'')"
proof -
  have usable: "sentinel idle_env (resolve_root idle_env None) = Usable"
    by (simp add: idle_env_def)
  have lock: "poll_lock idle_env (time0 idle_env) (time0 idle_env) 0 = Some (Inr ())"
    by (rule poll_lock_free) (simp add: idle_env_def)
  have nonneg: "(0::int) \<le> 4090" by simp
  have c: "(4090::int) \<le> 4092" "(4092::int) < 4090 + max_attempts_of None"
    "\<not> in_ports 4092 [JInt 4090, JInt 4091]" "is_port_available idle_env 4092 = Inr True"
    by (simp_all add: max_attempts_of_def in_ports_def int_eq_def is_port_available_def
        socket_bind_def idle_env_def)
  from allocate_smallest_candidate [where e = idle_env and fs = "registry_fs two_apps"
      and root_arg = None, OF usable lock load_two_apps nonneg c]
  obtain port where r: "find_available_port_with_lock idle_env (registry_fs two_apps) 4090 None None =
      Some (Inr port, touch_lock (registry_fs two_apps) (resolve_root idle_env None))"
    and lo: "4090 \<le> port" and np: "\<not> in_ports port [JInt 4090, JInt 4091]"
    and least: "\<forall>c'. 4090 \<le> c' \<and> c' < 4090 + max_attempts_of None \<and>
                 \<not> in_ports c' [JInt 4090, JInt 4091] \<and>
                 is_port_available idle_env c' = Inr True \<longrightarrow> port \<le> c'"
    by blast
  from least c have "port \<le> 4092" by blast
  moreover from np have "port \<noteq> 4090" "port \<noteq> 4091" by (auto simp: in_ports_def int_eq_def)
  ultimately have "port = 4092" using lo by linarith
  with r show ?thesis by (simp add: resolve_root_def idle_env_def)
qed

text \<open>
  Three sample calls with preferred port 4090, which no registry record holds and
  which is free on the operating system.
\<close>

lemma poll_lock_contended:
  "poll_lock contended_env (time0 contended_env) (time0 contended_env) 0 =
     Some (Inl (RuntimeError timeout_message))"
proof -
  have "fsub contended_env (clock_at contended_env 1) (time0 contended_env) > 10"
    and "held contended_env 1"
    and "\<forall>j < 1. held contended_env j \<and>
           fsub contended_env (clock_at contended_env j) (time0 contended_env) \<le> 10"
    by (simp_all add: contended_env_def idle_env_def)
  then show ?thesis by (rule poll_lock_times_out_at)
qed

text \<open>
  C1 as stated fails in three ways the code provides for. With the registry
  \<^verbatim>\<open>{"gsheet": 4091}\<close> the comprehension subscripts an int and the TypeError leaves
  the call, the handler naming only JSONDecodeError and IOError. Under a root that
  does not exist the touch of the sentinel raises. While another process keeps the
  lock the call raises the timeout error. In all three the candidate 4090 is free.
\<close>

theorem allocate_raises_counterexample:
  "find_available_port_with_lock idle_env (registry_fs (JObj [(''gsheet'', JInt 4091)])) 4090
     None None =
     Some (Inl TypeError, touch_lock (registry_fs (JObj [(''gsheet'', JInt 4091)])) ''/srv/workspace'') \<and>
   find_available_port_with_lock missing_root_env fresh_fs 4090 None None =
     Some (Inl IOError, fresh_fs) \<and>
   find_available_port_with_lock contended_env fresh_fs 4090 None None =
     Some (Inl (RuntimeError ''Timeout waiting for port allocation lock''),
           touch_lock fresh_fs ''/srv/workspace'') \<and>
   is_port_available idle_env 4090 = Inr True \<and>
   is_port_available missing_root_env 4090 = Inr True \<and>
   is_port_available contended_env 4090 = Inr True"
proof -
  have lock: "poll_lock idle_env (time0 idle_env) (time0 idle_env) 0 = Some (Inr ())"
    by (rule poll_lock_free) (simp add: idle_env_def)
  have load: "load_allocated_ports (Json (JObj [(''gsheet'', JInt 4091)])) = Inl TypeError"
    by (simp add: load_allocated_ports_def exists_file_def try_except_def and_then_def
        open_and_load_def values_of_def dict_values_def getitem_def caught_def)
  have shape: "find_available_port_with_lock idle_env (registry_fs (JObj [(''gsheet'', JInt 4091)]))
      4090 None None =
     Some (Inl TypeError, touch_lock (registry_fs (JObj [(''gsheet'', JInt 4091)])) ''/srv/workspace'')"
    using lock load
    by (simp add: find_available_port_with_lock_def allocate_locked_def and_then_def
        resolve_root_def idle_env_def registry_fs_def Let_def)
  have root: "find_available_port_with_lock missing_root_env fresh_fs 4090 None None =
     Some (Inl IOError, fresh_fs)"
    by (simp add: find_available_port_with_lock_def missing_root_env_def)
  have held: "find_available_port_with_lock contended_env fresh_fs 4090 None None =
     Some (Inl (RuntimeError ''Timeout waiting for port allocation lock''),
           touch_lock fresh_fs ''/srv/workspace'')"
    using poll_lock_contended
    by (simp add: find_available_port_with_lock_def timeout_message_def resolve_root_def
        contended_env_def idle_env_def)
  have free: "is_port_available idle_env 4090 = Inr True"
    "is_port_available missing_root_env 4090 = Inr True"
    "is_port_available contended_env 4090 = Inr True"
    by (simp_all add: is_port_available_def socket_bind_def idle_env_def missing_root_env_def
        contended_env_def)
  from shape root held free show ?thesis by blast
qed

text \<open>
  When every candidate is a port of the range and none is usable, the scan ends with
  the RuntimeError that names the preferred port and the number of attempts.
\<close>

lemma allocate_exhausted_in_range:
  assumes usable: "sentinel e (resolve_root e root_arg) = Usable"
    and lock: "poll_lock e (time0 e) (time0 e) 0 = Some (Inr ())"
    and load: "load_allocated_ports (ports_file (fs (resolve_root e root_arg))) = Inr allocated"
    and range: "0 \<le> preferred_port" "preferred_port + max_attempts_of max_attempts \<le> 65536"
    and none: "\<forall>c. preferred_port \<le> c \<and> c < preferred_port + max_attempts_of max_attempts \<longrightarrow>
                 in_ports c allocated \<or> \<not> bind_ok e c"
  shows "find_available_port_with_lock e fs preferred_port max_attempts root_arg =
           Some (Inl (RuntimeError (exhausted_message preferred_port (max_attempts_of max_attempts))),
                 touch_lock fs (resolve_root e root_arg))"
proof -
  have "in_ports (preferred_port + off) allocated \<or>
        is_port_available e (preferred_port + off) = Inr False"
    if "off \<in> set (py_range (max_attempts_of max_attempts))" for off
  proof -
    from that have off: "0 \<le> off" "off < max_attempts_of max_attempts"
      by (simp_all add: set_py_range)
    then have r: "0 \<le> preferred_port + off" "preferred_port + off \<le> 65535"
      using range by simp_all
    from off none have "in_ports (preferred_port + off) allocated \<or>
        \<not> bind_ok e (preferred_port + off)"
      by simp
    then show ?thesis using is_port_available_in_range [OF r, of e] by auto
  qed
  then have "scan_ports e allocated preferred_port (py_range (max_attempts_of max_attempts)) =
             Inr None"
    by (intro scan_ports_exhausted) blast
  with usable lock load show ?thesis
    by (simp add: find_available_port_with_lock_def allocate_locked_def and_then_def)
qed

text \<open>A port the call returns is always a candidate that is unallocated and bindable.\<close>

lemma allocate_returns_only_candidates:
  assumes "find_available_port_with_lock e fs preferred_port max_attempts root_arg =
             Some (Inr port, fs')"
  shows "\<exists>allocated.
           load_allocated_ports (ports_file (fs (resolve_root e root_arg))) = Inr allocated \<and>
           preferred_port \<le> port \<and> port < preferred_port + max_attempts_of max_attempts \<and>
           \<not> in_ports port allocated \<and> is_port_available e port = Inr True"
proof -
  let ?f = "ports_file (fs (resolve_root e root_arg))"
  from assms have body: "allocate_locked e ?f preferred_port (max_attempts_of max_attempts) = Inr port"
    by (auto simp: find_available_port_with_lock_def Let_def
        split: option.splits sum.splits sentinel_access.splits)
  then obtain allocated where load: "load_allocated_ports ?f = Inr allocated"
    and scan: "scan_ports e allocated preferred_port (py_range (max_attempts_of max_attempts)) =
                 Inr (Some port)"
    by (auto simp: allocate_locked_def and_then_def split: sum.splits option.splits)
  from scan_ports_sound [OF scan] obtain off where
    "off \<in> set (py_range (max_attempts_of max_attempts))" "port = preferred_port + off"
    "\<not> in_ports port allocated" "is_port_available e port = Inr True"
    by blast
  with load show ?thesis by (auto simp: set_py_range)
qed

text \<open>
  C2. The scan from 65535 with two attempts, port 65535 taken: no candidate is usable
  (65535 is bound elsewhere, 65536 cannot be bound), and the call raises OverflowError
  from the probe of 65536 instead of the RuntimeError of lines 102 to 105.
\<close>

theorem exhausted_scan_past_last_port:
  "find_available_port_with_lock last_port_busy_env fresh_fs 65535 (Some 2) None =
     Some (Inl OverflowError, touch_lock fresh_fs ''/srv/workspace'') \<and>
   is_port_available last_port_busy_env 65535 = Inr False \<and>
   socket_bind last_port_busy_env 65536 \<noteq> Bound"
proof -
  have lock: "poll_lock last_port_busy_env (time0 last_port_busy_env)
                (time0 last_port_busy_env) 0 = Some (Inr ())"
    by (rule poll_lock_free) (simp add: last_port_busy_env_def idle_env_def)
  have load: "load_allocated_ports (ports_file (fresh_fs ''/srv/workspace'')) = Inr []"
    by (simp add: fresh_fs_def)
  have scan: "scan_ports last_port_busy_env [] 65535 (py_range 2) = Inl OverflowError"
    by (simp add: py_range_def in_ports_def and_then_def is_port_available_def socket_bind_def
        upt_conv_Cons last_port_busy_env_def)
  have "find_available_port_with_lock last_port_busy_env fresh_fs 65535 (Some 2) None =
          Some (Inl OverflowError, touch_lock fresh_fs ''/srv/workspace'')"
    using lock load scan
    by (simp add: find_available_port_with_lock_def allocate_locked_def and_then_def
        max_attempts_of_def resolve_root_def idle_env_def last_port_busy_env_def)
  then show ?thesis
    by (simp add: is_port_available_def socket_bind_def last_port_busy_env_def)
qed

section \<open>The lock\<close>

text \<open>The clock of the two sample environments whose wall clock is set back.\<close>

lemma clock_at_frozen: "clock_at frozen_clock_env k = 0"
  by (induction k) (simp_all add: frozen_clock_env_def idle_env_def)

lemma clock_at_set_back: "clock_at clock_set_back_env k = real k / 10 - 3600"
  by (induction k) (simp_all add: clock_set_back_env_def idle_env_def field_simps)

text \<open>
  C3 (as amended). With a sentinel that can be touched and opened, the call tries the
  lock without blocking once per round, rounds being a sleep of 100 ms and the delay
  of the clock apart, and measures the time since its start on the wall clock.
  \<^item> It raises the timeout error in the first round in which the measured time
    exceeds ten seconds, when the lock was held in every round up to that one.
  \<^item> It does not raise it earlier: when the lock comes free in a round before which
    the measured time never exceeded ten seconds, the call goes on to the scan.
  \<^item> With the lock held for good it raises the timeout error if the measured time
    ever exceeds ten seconds, does not return if it never does, and in no case
    returns a port.
  \<^item> With the lock held for good, a clock that is never set back and a subtraction
    off by less than a second, it raises the timeout error.
  A call that raises the timeout error leaves the file system as it was, apart from
  the sentinel.
\<close>

theorem lock_timeout:
  assumes usable: "sentinel e (resolve_root e root_arg) = Usable"
  shows
    "(\<forall>k. (\<forall>j\<le>k. held e j) \<and> (\<forall>j<k. fsub e (clock_at e j) (time0 e) \<le> 10) \<and>
          10 < fsub e (clock_at e k) (time0 e) \<longrightarrow>
          find_available_port_with_lock e fs preferred_port max_attempts root_arg =
            Some (Inl (RuntimeError ''Timeout waiting for port allocation lock''),
                  fs(resolve_root e root_arg := (fs (resolve_root e root_arg))\<lparr>lock_file := True\<rparr>))) \<and>
     (\<forall>k. (\<forall>j<k. held e j \<and> fsub e (clock_at e j) (time0 e) \<le> 10) \<and> \<not> held e k \<longrightarrow>
          find_available_port_with_lock e fs preferred_port max_attempts root_arg =
            Some (allocate_locked e (ports_file (fs (resolve_root e root_arg))) preferred_port
                    (max_attempts_of max_attempts),
                  fs(resolve_root e root_arg := (fs (resolve_root e root_arg))\<lparr>lock_file := True\<rparr>))) \<and>
     ((\<forall>i. held e i) \<and> (\<exists>k. 10 < fsub e (clock_at e k) (time0 e)) \<longrightarrow>
          find_available_port_with_lock e fs preferred_port max_attempts root_arg =
            Some (Inl (RuntimeError ''Timeout waiting for port allocation lock''),
                  fs(resolve_root e root_arg := (fs (resolve_root e root_arg))\<lparr>lock_file := True\<rparr>))) \<and>
     ((\<forall>i. held e i) \<and> (\<forall>k. fsub e (clock_at e k) (time0 e) \<le> 10) \<longrightarrow>
          find_available_port_with_lock e fs preferred_port max_attempts root_arg = None) \<and>
     ((\<forall>i. held e i) \<longrightarrow>
          (\<forall>port fs'. find_available_port_with_lock e fs preferred_port max_attempts root_arg \<noteq>
                        Some (Inr port, fs'))) \<and>
     ((\<forall>i. held e i) \<and> (\<forall>i. 0 \<le> delay e i) \<and> (\<forall>t s. 11 \<le> t - s \<longrightarrow> 10 < fsub e t s) \<longrightarrow>
          find_available_port_with_lock e fs preferred_port max_attempts root_arg =
            Some (Inl (RuntimeError ''Timeout waiting for port allocation lock''),
                  fs(resolve_root e root_arg := (fs (resolve_root e root_arg))\<lparr>lock_file := True\<rparr>)))"
proof -
  let ?r = "resolve_root e root_arg"
  let ?call = "find_available_port_with_lock e fs preferred_port max_attempts root_arg"
  let ?timeout = "Some (Inl (RuntimeError ''Timeout waiting for port allocation lock''),
                        fs(?r := (fs ?r)\<lparr>lock_file := True\<rparr>))"
  have raised: "?call = ?timeout"
    if "poll_lock e (time0 e) (time0 e) 0 = Some (Inl (RuntimeError timeout_message))"
    using that usable
    by (simp add: find_available_port_with_lock_def touch_lock_def timeout_message_def Let_def)
  have first: "?call = ?timeout"
    if "\<forall>j\<le>k. held e j" "\<forall>j<k. fsub e (clock_at e j) (time0 e) \<le> 10"
      "10 < fsub e (clock_at e k) (time0 e)" for k
  proof -
    from that have "fsub e (clock_at e k) (time0 e) > 10" "held e k"
      "\<forall>j < k. held e j \<and> fsub e (clock_at e j) (time0 e) \<le> 10"
      by auto
    then show ?thesis by (intro raised poll_lock_times_out_at)
  qed
  have second: "?call = Some (allocate_locked e (ports_file (fs ?r)) preferred_port
                    (max_attempts_of max_attempts), fs(?r := (fs ?r)\<lparr>lock_file := True\<rparr>))"
    if "\<forall>j<k. held e j \<and> fsub e (clock_at e j) (time0 e) \<le> 10" "\<not> held e k" for k
  proof -
    from that have "poll_lock e (time0 e) (time0 e) 0 = Some (Inr ())"
      by (intro poll_lock_acquires_within_budget)
    with usable show ?thesis
      by (simp add: find_available_port_with_lock_def touch_lock_def Let_def)
  qed
  have third: "?call = ?timeout"
    if held: "\<forall>i. held e i" and over: "\<exists>k. 10 < fsub e (clock_at e k) (time0 e)"
  proof -
    define k where "k = (LEAST k. 10 < fsub e (clock_at e k) (time0 e))"
    from over have "10 < fsub e (clock_at e k) (time0 e)"
      unfolding k_def by (rule LeastI_ex)
    moreover have "\<forall>j<k. fsub e (clock_at e j) (time0 e) \<le> 10"
      unfolding k_def using not_less_Least by (auto simp: not_less [symmetric])
    ultimately show ?thesis using held by (intro first [of k]) auto
  qed
  have fourth: "?call = None"
    if "\<forall>i. held e i" "\<forall>k. fsub e (clock_at e k) (time0 e) \<le> 10"
  proof -
    from that have "poll_lock e (time0 e) (time0 e) 0 = None"
      by (rule poll_lock_never_returns)
    with usable show ?thesis by (simp add: find_available_port_with_lock_def Let_def)
  qed
  have fifth: "?call \<noteq> Some (Inr port, fs')" if held: "\<forall>i. held e i" for port fs'
  proof
    assume "?call = Some (Inr port, fs')"
    with usable have "poll_lock e (time0 e) (time0 e) 0 = Some (Inr ())"
      by (auto simp: find_available_port_with_lock_def Let_def split: option.splits sum.splits)
    from poll_lock_obtains [OF this refl] held show False by blast
  qed
  have sixth: "?call = ?timeout"
    if "\<forall>i. held e i" "\<forall>i. 0 \<le> delay e i" "\<forall>t s. 11 \<le> t - s \<longrightarrow> 10 < fsub e t s"
  proof -
    from that(2,3) have "10 < fsub e (clock_at e 110) (time0 e)"
      by (rule budget_elapses_by_round_110)
    then have "\<exists>k. 10 < fsub e (clock_at e k) (time0 e)" ..
    with that(1) show ?thesis by (rule third)
  qed
  from first second third fourth fifth sixth show ?thesis by blast
qed

text \<open>
  Another process keeps the lock and every round takes six seconds: the first round
  measures six seconds, the second one 12.1, and the call raises the timeout error.
\<close>

theorem lock_timeout_witness:
  "find_available_port_with_lock contended_env fresh_fs 4090 None None =
     Some (Inl (RuntimeError ''Timeout waiting for port allocation lock''),
           fresh_fs(''/srv/workspace'' := \<lparr>lock_file = True, ports_file = Absent, temp_file = Absent\<rparr>))"
proof -
  have usable: "sentinel contended_env (resolve_root contended_env None) = Usable"
    by (simp add: contended_env_def idle_env_def)
  have round: "(\<forall>j\<le>1. held contended_env j) \<and>
      (\<forall>j<1. fsub contended_env (clock_at contended_env j) (time0 contended_env) \<le> 10) \<and>
      10 < fsub contended_env (clock_at contended_env 1) (time0 contended_env)"
    by (simp add: contended_env_def idle_env_def)
  from lock_timeout [OF usable, of fresh_fs 4090 None] round
  have "find_available_port_with_lock contended_env fresh_fs 4090 None None =
      Some (Inl (RuntimeError ''Timeout waiting for port allocation lock''),
            fresh_fs(resolve_root contended_env None :=
              (fresh_fs (resolve_root contended_env None))\<lparr>lock_file := True\<rparr>))"
    by blast
  then show ?thesis
    by (simp add: resolve_root_def contended_env_def idle_env_def fresh_fs_def)
qed

text \<open>
  C3 as stated fails in three sample calls, each with the lock held by another
  process. When the sentinel belongs to that process's user the touch raises and the
  call ends with that error, not the timeout. When the wall clock stands still the
  measured time never exceeds the budget and the call does not return. When the wall
  clock is set back by an hour and the lock is released after 200 rounds, 20 seconds
  of sleep, the call has raised nothing in that time and returns port 4090.
\<close>

theorem lock_timeout_counterexample:
  "find_available_port_with_lock foreign_sentinel_env fresh_fs 4090 None None =
     Some (Inl IOError, fresh_fs) \<and>
   find_available_port_with_lock frozen_clock_env fresh_fs 4090 None None = None \<and>
   find_available_port_with_lock clock_set_back_env fresh_fs 4090 None None =
     Some (Inr 4090, touch_lock fresh_fs ''/srv/workspace'')"
proof -
  have foreign: "find_available_port_with_lock foreign_sentinel_env fresh_fs 4090 None None =
     Some (Inl IOError, fresh_fs)"
    by (simp add: find_available_port_with_lock_def foreign_sentinel_env_def)
  have "poll_lock frozen_clock_env (time0 frozen_clock_env) (time0 frozen_clock_env) 0 = None"
  proof (rule poll_lock_never_returns)
    show "\<forall>i. held frozen_clock_env i" by (simp add: frozen_clock_env_def)
    show "\<forall>k. fsub frozen_clock_env (clock_at frozen_clock_env k) (time0 frozen_clock_env) \<le> 10"
      by (simp add: clock_at_frozen) (simp add: frozen_clock_env_def idle_env_def)
  qed
  then have frozen: "find_available_port_with_lock frozen_clock_env fresh_fs 4090 None None = None"
    by (simp add: find_available_port_with_lock_def frozen_clock_env_def idle_env_def)
  have "poll_lock clock_set_back_env (time0 clock_set_back_env) (time0 clock_set_back_env) 0 =
        Some (Inr ())"
  proof (rule poll_lock_acquires_within_budget [of _ 200])
    show "\<not> held clock_set_back_env 200" by (simp add: clock_set_back_env_def)
    show "\<forall>j<200. held clock_set_back_env j \<and>
            fsub clock_set_back_env (clock_at clock_set_back_env j) (time0 clock_set_back_env) \<le> 10"
      by (simp add: clock_at_set_back) (simp add: clock_set_back_env_def idle_env_def)
  qed
  moreover have "scan_ports clock_set_back_env [] 4090 (py_range 100) = Inr (Some 4090)"
    by (rule scan_ports_least)
       (simp_all add: in_ports_def is_port_available_def socket_bind_def clock_set_back_env_def
          idle_env_def)
  ultimately have set_back:
    "find_available_port_with_lock clock_set_back_env fresh_fs 4090 None None =
       Some (Inr 4090, touch_lock fresh_fs ''/srv/workspace'')"
    by (simp add: find_available_port_with_lock_def allocate_locked_def and_then_def
        max_attempts_of_def resolve_root_def fresh_fs_def clock_set_back_env_def idle_env_def)
  from foreign frozen set_back show ?thesis by blast
qed

text \<open>
  C7. \<open>save_app_port\<close> takes the lock with the blocking call: while another process
  keeps the lock the call never returns, where the polling loop of
  \<open>find_available_port_with_lock\<close> gives up after ten seconds.
\<close>

theorem save_blocks_while_lock_held:
  "save_app_port contended_env fresh_fs ''project-hub'' 4090 None = None"
proof -
  have "flock_blocking contended_env 0 = None"
    by (rule flock_blocking_forever) (simp add: contended_env_def)
  then show ?thesis by (simp add: save_app_port_def contended_env_def idle_env_def)
qed

section \<open>The prober and the legacy entry point\<close>

text \<open>
  C9. For a port above 65535 the bind raises OverflowError, which the handler for
  OSError lets through: the prober raises instead of returning False.
\<close>

theorem is_port_available_raises_above_65535:
  "is_port_available e 65536 = Inl OverflowError"
  by (simp add: is_port_available_def socket_bind_def)

text \<open>
  C10. The legacy entry point is the locking one at the default workspace root, for
  an explicit number of attempts as for the default.
\<close>

theorem find_available_port_redirects:
  "find_available_port e fs preferred_port max_attempts =
   find_available_port_with_lock e fs preferred_port max_attempts None"
  by (cases max_attempts)
     (simp_all add: find_available_port_def find_available_port_with_lock_def max_attempts_of_def)

section \<open>The registry store\<close>

subsection \<open>Dicts\<close>

lemma dict_get_setitem:
  "dict_get (dict_setitem d k v) k' = (if k' = k then Some v else dict_get d k')"
  by (induction d) (auto simp: dict_get_def)






subsection \<open>What a call of save_app_port leaves behind\<close>

lemma save_app_port_returns:
  assumes "save_app_port e fs app_name port root_arg = Some (Inr (), fs')"
  shows "sentinel e (resolve_root e root_arg) = Usable \<and> write_fault e = No_fault \<and>
         (\<exists>j. flock_blocking e 0 = Some j) \<and>
         (\<exists>new. updated_registry (ports_file (fs (resolve_root e root_arg))) app_name port
                   (time0 e) = Inr new \<and>
                fs' = replace_temp (dump_temp (open_temp (touch_lock fs (resolve_root e root_arg))
                        (resolve_root e root_arg)) (resolve_root e root_arg) new)
                        (resolve_root e root_arg))"
proof -
  let ?r = "resolve_root e root_arg"
  from assms have usable: "sentinel e ?r = Usable"
    by (cases "sentinel e ?r") (simp_all add: save_app_port_def Let_def)
  with assms obtain j where j: "flock_blocking e 0 = Some j"
    by (cases "flock_blocking e 0") (simp_all add: save_app_port_def Let_def)
  with assms usable obtain new where
    new: "updated_registry (ports_file (fs ?r)) app_name port (time0 e) = Inr new"
    by (cases "updated_registry (ports_file (fs ?r)) app_name port (time0 e)")
       (simp_all add: save_app_port_def Let_def)
  with assms usable j have fault: "write_fault e = No_fault"
    by (cases "write_fault e") (simp_all add: save_app_port_def Let_def)
  with assms usable j new
  have "fs' = replace_temp (dump_temp (open_temp (touch_lock fs ?r) ?r) ?r new) ?r"
    by (simp add: save_app_port_def Let_def)
  with usable fault j new show ?thesis by blast
qed

lemma save_app_port_success:
  assumes "save_app_port e fs app_name port root_arg = Some (Inr (), fs')"
  shows "\<exists>d. load_ports_data (ports_file (fs (resolve_root e root_arg))) = Inr (JObj d) \<and>
             fs' = fs(resolve_root e root_arg :=
                        \<lparr>lock_file = True,
                         ports_file = Json (JObj (dict_setitem d app_name (port_record port (time0 e)))),
                         temp_file = Absent\<rparr>)"
proof -
  let ?r = "resolve_root e root_arg"
  from save_app_port_returns [OF assms] obtain new where
    new: "updated_registry (ports_file (fs ?r)) app_name port (time0 e) = Inr new"
    and fs': "fs' = replace_temp (dump_temp (open_temp (touch_lock fs ?r) ?r) ?r new) ?r"
    by blast
  from new obtain d where d: "load_ports_data (ports_file (fs ?r)) = Inr (JObj d)"
    and new_eq: "new = JObj (dict_setitem d app_name (port_record port (time0 e)))"
    by (auto simp: updated_registry_def and_then_def setitem_def split: sum.splits json.splits)
  have "fs' = fs(?r := \<lparr>lock_file = True, ports_file = Json new, temp_file = Absent\<rparr>)"
    unfolding fs'
    by (cases "fs ?r") (simp add: replace_temp_def dump_temp_def open_temp_def touch_lock_def)
  with d new_eq show ?thesis by blast
qed

lemma readers_depend_on_ports_file:
  assumes "ports_file (s (resolve_root e' root_arg)) = ports_file (fs (resolve_root e' root_arg))"
  shows "get_all_app_ports e' s root_arg = get_all_app_ports e' fs root_arg"
    and "get_app_port e' s app_name root_arg = get_app_port e' fs app_name root_arg"
  using assms by (simp_all add: get_all_app_ports_def get_app_port_def)

lemma ports_file_open_temp [simp]: "ports_file (open_temp fs r r') = ports_file (fs r')"
  by (simp add: open_temp_def)

lemma ports_file_dump_temp [simp]: "ports_file (dump_temp fs r v r') = ports_file (fs r')"
  by (simp add: dump_temp_def)

lemma save_steps_cases:
  assumes "s \<in> set (save_steps e fs app_name port root_arg)"
  shows "(\<forall>r'. ports_file (s r') = ports_file (fs r')) \<or>
         (\<exists>new. updated_registry (ports_file (fs (resolve_root e root_arg))) app_name port (time0 e) = Inr new \<and>
                s = fs(resolve_root e root_arg :=
                        \<lparr>lock_file = True, ports_file = Json new, temp_file = Absent\<rparr>))"
proof -
  let ?r = "resolve_root e root_arg"
  let ?fs1 = "touch_lock fs ?r"
  let ?fs2 = "open_temp ?fs1 ?r"
  have early: "\<forall>r'. ports_file (s r') = ports_file (fs r')" if "s = fs \<or> s = ?fs1"
    using that by (elim disjE) simp_all
  have early2: "\<forall>r'. ports_file (s r') = ports_file (fs r')" if "s = ?fs2"
    using that by simp
  show ?thesis
  proof (cases "sentinel e ?r")
    case Touch_fails
    with assms have "s = fs \<or> s = ?fs1" by (simp add: save_steps_def Let_def)
    then show ?thesis using early by blast
  next
    case Open_fails
    with assms have "s = fs \<or> s = ?fs1" by (simp add: save_steps_def Let_def)
    then show ?thesis using early by blast
  next
    case Usable
    show ?thesis
    proof (cases "flock_blocking e 0")
      case None
      with Usable assms have "s = fs \<or> s = ?fs1" by (simp add: save_steps_def Let_def)
      then show ?thesis using early by blast
    next
      case (Some j)
      show ?thesis
      proof (cases "updated_registry (ports_file (fs ?r)) app_name port (time0 e)")
        case (Inl err)
        with Usable Some assms have "s = fs \<or> s = ?fs1" by (simp add: save_steps_def Let_def)
        then show ?thesis using early by blast
      next
        case (Inr new)
        let ?fs3 = "dump_temp ?fs2 ?r new"
        have early3: "\<forall>r'. ports_file (s r') = ports_file (fs r')" if "s = ?fs3"
          using that by simp
        have last: "replace_temp ?fs3 ?r =
                    fs(?r := \<lparr>lock_file = True, ports_file = Json new, temp_file = Absent\<rparr>)"
          by (cases "fs ?r") (simp add: replace_temp_def dump_temp_def open_temp_def touch_lock_def)
        have "(s = fs \<or> s = ?fs1) \<or> s = ?fs2 \<or> s = ?fs3 \<or> s = replace_temp ?fs3 ?r"
        proof (cases "write_fault e")
          case No_fault
          with Usable Some Inr assms show ?thesis by (simp add: save_steps_def Let_def; blast)
        next
          case Temp_open_fails
          with Usable Some Inr assms show ?thesis by (simp add: save_steps_def Let_def; blast)
        next
          case Dump_fails
          with Usable Some Inr assms show ?thesis by (simp add: save_steps_def Let_def; blast)
        next
          case Replace_fails
          with Usable Some Inr assms show ?thesis by (simp add: save_steps_def Let_def; blast)
        qed
        then show ?thesis
        proof (elim disjE)
          assume "s = replace_temp ?fs3 ?r"
          with last Inr show ?thesis by simp
        next
          assume "s = ?fs2"
          then show ?thesis using early2 by blast
        next
          assume "s = ?fs3"
          then show ?thesis using early3 by blast
        qed (use early in blast)+
      qed
    qed
  qed
qed

text \<open>
  C5. After a call of \<open>save_app_port\<close> that returned, \<open>get_app_port\<close> for the
  same app name and workspace root returns the saved port, and the record
  \<open>get_all_app_ports\<close> holds for the app name has that port, the URL
  \<^verbatim>\<open>http://localhost:<port>\<close>, the template \<^verbatim>\<open>http://{network_ip}:<port>\<close> and
  a timestamp.
\<close>

theorem save_then_read_roundtrip:
  assumes saved: "save_app_port e fs app_name port root_arg = Some (Inr (), fs')"
    and same_module: "default_root e' = default_root e"
  shows "get_app_port e' fs' app_name root_arg = Inr (Some (JInt port)) \<and>
         (\<exists>d t. get_all_app_ports e' fs' root_arg = Inr (JObj d) \<and>
                 dict_get d app_name =
                   Some (JObj [(''port'', JInt port),
                               (''url'', JStr (''http://localhost:'' @ str_int port)),
                               (''network_url_template'', JStr (''http://{network_ip}:'' @ str_int port)),
                               (''timestamp'', JFloat (Finite t))]))"
proof -
  have r: "resolve_root e' root_arg = resolve_root e root_arg"
    using same_module by (simp add: resolve_root_def split: option.splits)
  from save_app_port_success [OF saved] obtain d where
    fs': "fs' = fs(resolve_root e root_arg :=
                \<lparr>lock_file = True,
                 ports_file = Json (JObj (dict_setitem d app_name (port_record port (time0 e)))),
                 temp_file = Absent\<rparr>)"
    by blast
  let ?d' = "dict_setitem d app_name (port_record port (time0 e))"
  have pf: "ports_file (fs' (resolve_root e' root_arg)) = Json (JObj ?d')"
    by (simp add: fs' r)
  have get: "dict_get ?d' app_name = Some (port_record port (time0 e))"
    by (simp add: dict_get_setitem)
  have one: "get_app_port e' fs' app_name root_arg = Inr (Some (JInt port))"
    using get
    by (simp add: get_app_port_def pf exists_file_def try_except_def and_then_def
        open_and_load_def contains_def getitem_def)
       (simp add: port_record_def dict_get_def)
  have all: "get_all_app_ports e' fs' root_arg = Inr (JObj ?d')"
    by (simp add: get_all_app_ports_def pf and_then_def try_except_def open_and_load_def)
  from one all get show ?thesis by (auto simp: port_record_def)
qed

theorem save_then_read_roundtrip_witness:
  "save_app_port idle_env fresh_fs ''gsheet'' 4091 None =
     Some (Inr (), fresh_fs(''/srv/workspace'' :=
             \<lparr>lock_file = True, ports_file = Json (JObj [(''gsheet'', port_record 4091 0)]),
              temp_file = Absent\<rparr>)) \<and>
   get_app_port idle_env
     (fresh_fs(''/srv/workspace'' :=
        \<lparr>lock_file = True, ports_file = Json (JObj [(''gsheet'', port_record 4091 0)]),
         temp_file = Absent\<rparr>)) ''gsheet'' None = Inr (Some (JInt 4091)) \<and>
   port_record 4091 0 =
     JObj [(''port'', JInt 4091), (''url'', JStr ''http://localhost:4091''),
           (''network_url_template'', JStr ''http://{network_ip}:4091''),
           (''timestamp'', JFloat (Finite 0))]"
proof -
  have lock: "flock_blocking idle_env 0 = Some 0"
    by (rule flock_blocking_free) (simp add: idle_env_def)
  have saved: "save_app_port idle_env fresh_fs ''gsheet'' 4091 None =
     Some (Inr (), fresh_fs(''/srv/workspace'' :=
             \<lparr>lock_file = True, ports_file = Json (JObj [(''gsheet'', port_record 4091 0)]),
              temp_file = Absent\<rparr>))"
    using lock
    by (simp add: save_app_port_def resolve_root_def touch_lock_def updated_registry_def
        load_ports_data_def exists_file_def and_then_def setitem_def replace_temp_def
        dump_temp_def open_temp_def fresh_fs_def idle_env_def)
  have rec: "port_record 4091 0 =
     JObj [(''port'', JInt 4091), (''url'', JStr ''http://localhost:4091''),
           (''network_url_template'', JStr ''http://{network_ip}:4091''),
           (''timestamp'', JFloat (Finite 0))]"
    by (simp add: port_record_def str_int_4091)
  from save_then_read_roundtrip [OF saved, of idle_env] saved rec show ?thesis by simp
qed

text \<open>
  C6. At every moment of a call of \<open>save_app_port\<close> the registry file of every
  workspace root is the file found at the start or, under the root of the call, the
  complete new registry; a reader at that moment gets what it would have got before
  the call or the new registry. When the call returns, the moment before the last
  has the new registry complete in the temporary file of the same root beside the
  old registry file, and the last step is the one rename.
\<close>

theorem save_replaces_atomically:
  assumes moment: "s \<in> set (save_steps e fs app_name port root_arg)"
    and same_module: "default_root e' = default_root e"
  shows "(\<forall>r'. ports_file (s r') = ports_file (fs r') \<or>
               (r' = resolve_root e root_arg \<and>
                (\<exists>new. updated_registry (ports_file (fs r')) app_name port (time0 e) = Inr new \<and>
                       ports_file (s r') = Json new))) \<and>
         (get_all_app_ports e' s root_arg = get_all_app_ports e' fs root_arg \<or>
          (\<exists>new. updated_registry (ports_file (fs (resolve_root e root_arg))) app_name port (time0 e) = Inr new \<and>
                 get_all_app_ports e' s root_arg = Inr new)) \<and>
         (\<forall>fs'. save_app_port e fs app_name port root_arg = Some (Inr (), fs') \<longrightarrow>
            (\<exists>new before.
               updated_registry (ports_file (fs (resolve_root e root_arg))) app_name port (time0 e) = Inr new \<and>
               save_steps e fs app_name port root_arg =
                 [fs, touch_lock fs (resolve_root e root_arg),
                  open_temp (touch_lock fs (resolve_root e root_arg)) (resolve_root e root_arg),
                  before, fs'] \<and>
               temp_file (before (resolve_root e root_arg)) = Json new \<and>
               ports_file (before (resolve_root e root_arg)) = ports_file (fs (resolve_root e root_arg)) \<and>
               fs' = replace_temp before (resolve_root e root_arg) \<and>
               ports_file (fs' (resolve_root e root_arg)) = Json new))"
proof -
  let ?r = "resolve_root e root_arg"
  let ?upd = "updated_registry (ports_file (fs ?r)) app_name port (time0 e)"
  have r: "resolve_root e' root_arg = ?r"
    using same_module by (simp add: resolve_root_def split: option.splits)
  note cases = save_steps_cases [OF moment]
  have file_now: "ports_file (s r') = ports_file (fs r') \<or>
      (r' = ?r \<and> (\<exists>new. updated_registry (ports_file (fs r')) app_name port (time0 e) = Inr new \<and>
                       ports_file (s r') = Json new))" for r'
    using cases
  proof
    assume "\<forall>r'. ports_file (s r') = ports_file (fs r')"
    then show ?thesis by simp
  next
    assume "\<exists>new. ?upd = Inr new \<and>
                s = fs(?r := \<lparr>lock_file = True, ports_file = Json new, temp_file = Absent\<rparr>)"
    then obtain new where new: "?upd = Inr new"
      and s: "s = fs(?r := \<lparr>lock_file = True, ports_file = Json new, temp_file = Absent\<rparr>)"
      by blast
    show ?thesis
    proof (cases "r' = ?r")
      case True
      with new s show ?thesis by simp
    next
      case False
      with s show ?thesis by simp
    qed
  qed
  have reader: "get_all_app_ports e' s root_arg = get_all_app_ports e' fs root_arg \<or>
          (\<exists>new. ?upd = Inr new \<and> get_all_app_ports e' s root_arg = Inr new)"
    using cases
  proof
    assume "\<forall>r'. ports_file (s r') = ports_file (fs r')"
    then have "ports_file (s (resolve_root e' root_arg)) = ports_file (fs (resolve_root e' root_arg))"
      by simp
    then have "get_all_app_ports e' s root_arg = get_all_app_ports e' fs root_arg"
      by (rule readers_depend_on_ports_file(1))
    then show ?thesis ..
  next
    assume "\<exists>new. ?upd = Inr new \<and>
                s = fs(?r := \<lparr>lock_file = True, ports_file = Json new, temp_file = Absent\<rparr>)"
    then obtain new where new: "?upd = Inr new"
      and s: "s = fs(?r := \<lparr>lock_file = True, ports_file = Json new, temp_file = Absent\<rparr>)"
      by blast
    have "ports_file (s (resolve_root e' root_arg)) = Json new" by (simp add: s r)
    then have "get_all_app_ports e' s root_arg = Inr new"
      by (simp add: get_all_app_ports_def and_then_def try_except_def open_and_load_def)
    with new show ?thesis by blast
  qed
  have returned: "\<exists>new before.
               ?upd = Inr new \<and>
               save_steps e fs app_name port root_arg =
                 [fs, touch_lock fs ?r, open_temp (touch_lock fs ?r) ?r, before, fs'] \<and>
               temp_file (before ?r) = Json new \<and>
               ports_file (before ?r) = ports_file (fs ?r) \<and>
               fs' = replace_temp before ?r \<and>
               ports_file (fs' ?r) = Json new"
    if saved: "save_app_port e fs app_name port root_arg = Some (Inr (), fs')" for fs'
  proof -
    from save_app_port_returns [OF saved] obtain j new where
      usable: "sentinel e ?r = Usable" and fault: "write_fault e = No_fault"
      and j: "flock_blocking e 0 = Some j" and new: "?upd = Inr new"
      and fs': "fs' = replace_temp (dump_temp (open_temp (touch_lock fs ?r) ?r) ?r new) ?r"
      by blast
    let ?before = "dump_temp (open_temp (touch_lock fs ?r) ?r) ?r new"
    have steps: "save_steps e fs app_name port root_arg =
            [fs, touch_lock fs ?r, open_temp (touch_lock fs ?r) ?r, ?before, fs']"
      using usable fault j new fs' by (simp add: save_steps_def Let_def)
    have temp: "temp_file (?before ?r) = Json new"
      by (simp add: dump_temp_def)
    have old: "ports_file (?before ?r) = ports_file (fs ?r)"
      by simp
    have final: "ports_file (fs' ?r) = Json new"
      by (simp add: fs' replace_temp_def dump_temp_def)
    show ?thesis
      by (rule exI [of _ new], rule exI [of _ ?before]) (use new steps temp old fs' final in blast)
  qed
  from file_now reader returned show ?thesis by blast
qed

theorem save_replaces_atomically_witness:
  "open_temp (touch_lock fresh_fs ''/srv/workspace'') ''/srv/workspace''
     \<in> set (save_steps idle_env fresh_fs ''gsheet'' 4091 None) \<and>
   temp_file (open_temp (touch_lock fresh_fs ''/srv/workspace'') ''/srv/workspace'' ''/srv/workspace'') = Malformed \<and>
   (get_all_app_ports idle_env
      (open_temp (touch_lock fresh_fs ''/srv/workspace'') ''/srv/workspace'') None = Inr (JObj []) \<or>
    get_all_app_ports idle_env
      (open_temp (touch_lock fresh_fs ''/srv/workspace'') ''/srv/workspace'') None =
      Inr (JObj [(''gsheet'', port_record 4091 0)]))"
proof -
  let ?s = "open_temp (touch_lock fresh_fs ''/srv/workspace'') ''/srv/workspace''"
  have lock: "flock_blocking idle_env 0 = Some 0"
    by (rule flock_blocking_free) (simp add: idle_env_def)
  have upd: "updated_registry (ports_file (fresh_fs (resolve_root idle_env None))) ''gsheet'' 4091
               (time0 idle_env) = Inr (JObj [(''gsheet'', port_record 4091 0)])"
    by (simp add: updated_registry_def load_ports_data_def exists_file_def and_then_def
        setitem_def fresh_fs_def idle_env_def)
  have root: "resolve_root idle_env None = ''/srv/workspace''"
    by (simp add: resolve_root_def idle_env_def)
  have moment: "?s \<in> set (save_steps idle_env fresh_fs ''gsheet'' 4091 None)"
    using lock upd by (simp add: save_steps_def Let_def root)
  have before: "get_all_app_ports idle_env fresh_fs None = Inr (JObj [])"
    by (simp add: get_all_app_ports_def and_then_def fresh_fs_def)
  have temp: "temp_file (?s ''/srv/workspace'') = Malformed"
    by (simp add: open_temp_def)
  from save_replaces_atomically [OF moment refl]
  have "get_all_app_ports idle_env ?s None = get_all_app_ports idle_env fresh_fs None \<or>
        (\<exists>new. updated_registry (ports_file (fresh_fs (resolve_root idle_env None))) ''gsheet'' 4091
                  (time0 idle_env) = Inr new \<and>
               get_all_app_ports idle_env ?s None = Inr new)"
    by blast
  with upd before have "get_all_app_ports idle_env ?s None = Inr (JObj []) \<or>
      get_all_app_ports idle_env ?s None = Inr (JObj [(''gsheet'', port_record 4091 0)])"
    by auto
  with moment temp show ?thesis by blast
qed



section \<open>The discovery functions\<close>

text \<open>
  C4 as stated fails on registry paths of five kinds, each met by a handler that names
  only JSONDecodeError and IOError around the load, with the existence test outside.
  With the registry \<^verbatim>\<open>{"gsheet": 4091}\<close> the lookup
  \<^verbatim>\<open>ports_data[app_name]['port']\<close> subscripts an int and \<open>get_app_port\<close> raises
  TypeError. Under a directory that may not be searched the existence test raises
  PermissionError. Bytes that are not text raise UnicodeDecodeError, an integer of too
  many digits ValueError, nesting too deep RecursionError; these leave both functions.
\<close>

theorem reads_raise_counterexample:
  "get_app_port idle_env (registry_fs (JObj [(''gsheet'', JInt 4091)])) ''gsheet'' None =
     Inl TypeError \<and>
   get_app_port idle_env (ports_file_fs Inaccessible) ''gsheet'' None = Inl IOError \<and>
   get_all_app_ports idle_env (ports_file_fs Inaccessible) None = Inl IOError \<and>
   get_app_port idle_env (ports_file_fs Undecodable) ''gsheet'' None = Inl UnicodeDecodeError \<and>
   get_all_app_ports idle_env (ports_file_fs Undecodable) None = Inl UnicodeDecodeError \<and>
   get_app_port idle_env (ports_file_fs Oversized) ''gsheet'' None = Inl ValueError \<and>
   get_all_app_ports idle_env (ports_file_fs Oversized) None = Inl ValueError \<and>
   get_app_port idle_env (ports_file_fs Overnested) ''gsheet'' None = Inl RecursionError \<and>
   get_all_app_ports idle_env (ports_file_fs Overnested) None = Inl RecursionError"
  by (simp add: get_app_port_def get_all_app_ports_def registry_fs_def ports_file_fs_def
      resolve_root_def idle_env_def fresh_fs_def try_except_def and_then_def open_and_load_def
      contains_def getitem_def dict_get_def caught_def)

text \<open>
  C4 (as amended). When the registry file is absent, cannot be opened or is not JSON,
  \<open>get_app_port\<close> returns None and \<open>get_all_app_ports\<close> the empty dict. For every
  document \<^verbatim>\<open>json.load\<close> accepts, whatever its shape, \<open>get_all_app_ports\<close> returns
  the parsed value; \<open>get_app_port\<close> returns None when the membership test finds the
  app name absent, and the stored port when the document is an object whose entry for
  the app name is an object with a \<^verbatim>\<open>port\<close> key. In all these cases neither function
  raises.
\<close>

theorem reads_tolerate_missing_or_unparseable:
  assumes f: "ports_file (fs (resolve_root e root_arg)) = f"
  shows "(f = Absent \<or> f = Unreadable \<or> f = Malformed \<longrightarrow>
            get_app_port e fs app_name root_arg = Inr None \<and>
            get_all_app_ports e fs root_arg = Inr (JObj [])) \<and>
         (\<forall>v. f = Json v \<longrightarrow> get_all_app_ports e fs root_arg = Inr v) \<and>
         (\<forall>v. f = Json v \<and> contains v app_name = Inr False \<longrightarrow>
            get_app_port e fs app_name root_arg = Inr None) \<and>
         (\<forall>d. f = Json (JObj d) \<and> dict_get d app_name = None \<longrightarrow>
            get_app_port e fs app_name root_arg = Inr None) \<and>
         (\<forall>d r p. f = Json (JObj d) \<and> dict_get d app_name = Some (JObj r) \<and>
                  dict_get r ''port'' = Some p \<longrightarrow>
            get_app_port e fs app_name root_arg = Inr (Some p))"
proof -
  have failed: "get_app_port e fs app_name root_arg = Inr None \<and>
                get_all_app_ports e fs root_arg = Inr (JObj [])"
    if "f = Absent \<or> f = Unreadable \<or> f = Malformed"
    using that f
    by (elim disjE)
       (simp_all add: get_app_port_def get_all_app_ports_def try_except_def and_then_def
          open_and_load_def caught_def)
  have every: "get_all_app_ports e fs root_arg = Inr v" if "f = Json v" for v
    using that f
    by (simp add: get_all_app_ports_def try_except_def and_then_def open_and_load_def)
  have absent: "get_app_port e fs app_name root_arg = Inr None"
    if "f = Json v \<and> contains v app_name = Inr False" for v
    using that f
    by (simp add: get_app_port_def try_except_def and_then_def open_and_load_def)
  have no_key: "get_app_port e fs app_name root_arg = Inr None"
    if "f = Json (JObj d) \<and> dict_get d app_name = None" for d
    using that f
    by (simp add: get_app_port_def try_except_def and_then_def open_and_load_def contains_def)
  have found: "get_app_port e fs app_name root_arg = Inr (Some p)"
    if "f = Json (JObj d) \<and> dict_get d app_name = Some (JObj r) \<and> dict_get r ''port'' = Some p"
    for d r p
    using that f
    by (simp add: get_app_port_def try_except_def and_then_def open_and_load_def contains_def
        getitem_def)
  from failed every absent no_key found show ?thesis by blast
qed

text \<open>
  A truncated registry file: no port for any name, and the empty dict. A registry
  that is a JSON list: \<open>get_all_app_ports\<close> returns the list, and \<open>get_app_port\<close>
  None for a name that is not among its elements.
\<close>

theorem reads_tolerate_missing_or_unparseable_witness:
  "get_app_port idle_env truncated_fs ''gsheet'' None = Inr None \<and>
   get_all_app_ports idle_env truncated_fs None = Inr (JObj []) \<and>
   get_all_app_ports idle_env (registry_fs (JArr [JInt 4090])) None = Inr (JArr [JInt 4090]) \<and>
   get_app_port idle_env (registry_fs (JArr [JInt 4090])) ''gsheet'' None = Inr None"
proof -
  have f: "ports_file (truncated_fs (resolve_root idle_env None)) = Malformed"
    by (simp add: truncated_fs_def resolve_root_def)
  have g: "ports_file (registry_fs (JArr [JInt 4090]) (resolve_root idle_env None)) =
             Json (JArr [JInt 4090])"
    by (simp add: registry_fs_def resolve_root_def)
  have absent: "contains (JArr [JInt 4090]) ''gsheet'' = Inr False"
    by (simp add: contains_def)
  from reads_tolerate_missing_or_unparseable [where fs = truncated_fs and e = idle_env
      and root_arg = None and app_name = "''gsheet''", OF f]
  have "get_app_port idle_env truncated_fs ''gsheet'' None = Inr None \<and>
        get_all_app_ports idle_env truncated_fs None = Inr (JObj [])"
    by simp
  moreover
  from reads_tolerate_missing_or_unparseable [where fs = "registry_fs (JArr [JInt 4090])"
      and e = idle_env and root_arg = None and app_name = "''gsheet''", OF g] absent
  have "get_all_app_ports idle_env (registry_fs (JArr [JInt 4090])) None = Inr (JArr [JInt 4090]) \<and>
        get_app_port idle_env (registry_fs (JArr [JInt 4090])) ''gsheet'' None = Inr None"
    by simp
  ultimately show ?thesis by simp
qed

end
